theory Spec2Isabelle
  imports Complex_Main "HOL-Library.Char_ord" "HOL-Library.List_Lexorder"
begin

section \<open>Validators: times of day\<close>

text \<open>
  A JavaScript value that may be \<open>null\<close> or \<open>undefined\<close> is an \<open>option\<close>
  (\<open>None\<close> for both, which the code never tells apart in the places modelled so).
  Numbers that hold hours are rationals; numbers that hold minutes are integers.
  \<open>Number s\<close> is JavaScript's conversion of a string to a number on the strings of
  decimal digits (and the empty string, which is 0), where it is exact; every other
  string is \<open>None\<close> here. JavaScript also reads digits between blanks, after a sign,
  with a fraction or an exponent, and hexadecimal digits, as numbers, so \<open>None\<close> does
  not always stand for \<open>NaN\<close>. The patterns of \<open>validateTime\<close> and \<open>validateDate\<close>
  let through strings whose parts are digits only, and a statement below that depends
  on what a string is not (a time that is not valid, a date that is not a Friday) takes
  a string of such a pattern.
\<close>

definition isDigit :: "char \<Rightarrow> bool" where
  "isDigit c = (CHR ''0'' \<le> c \<and> c \<le> CHR ''9'')"

definition digitVal :: "char \<Rightarrow> nat" where
  "digitVal c = of_char c - of_char CHR ''0''"

definition Number :: "string \<Rightarrow> int option" where
  "Number s = (if list_all isDigit s
               then Some (int (foldl (\<lambda>a c. 10 * a + digitVal c) 0 s)) else None)"

fun splitStr :: "char \<Rightarrow> string \<Rightarrow> string list" where
  "splitStr sep [] = [[]]"
| "splitStr sep (c # cs) =
     (if c = sep then [] # splitStr sep cs
      else (case splitStr sep cs of [] \<Rightarrow> [[c]] | p # ps \<Rightarrow> (c # p) # ps))"

text \<open>The pattern \<open>/^([0-1]?[0-9]|2[0-3]):([0-5][0-9])$/\<close> of \<open>validateTime\<close>.\<close>

fun timePattern :: "string \<Rightarrow> bool" where
  "timePattern [h, c, m1, m2] =
     (isDigit h \<and> c = CHR '':'' \<and> CHR ''0'' \<le> m1 \<and> m1 \<le> CHR ''5'' \<and> isDigit m2)"
| "timePattern [h1, h2, c, m1, m2] =
     ((((h1 = CHR ''0'' \<or> h1 = CHR ''1'') \<and> isDigit h2)
        \<or> (h1 = CHR ''2'' \<and> CHR ''0'' \<le> h2 \<and> h2 \<le> CHR ''3''))
      \<and> c = CHR '':'' \<and> CHR ''0'' \<le> m1 \<and> m1 \<le> CHR ''5'' \<and> isDigit m2)"
| "timePattern _ = False"

definition validateTime :: "string option \<Rightarrow> bool" where
  "validateTime t = (case t of None \<Rightarrow> False | Some s \<Rightarrow> s \<noteq> [] \<and> timePattern s)"

definition parseTimeToMinutes :: "string option \<Rightarrow> int option" where
  "parseTimeToMinutes t =
     (if \<not> validateTime t then None
      else (case map Number (splitStr CHR '':'' (the t)) of
              [Some hh, Some mm] \<Rightarrow> Some (hh * 60 + mm)
            | _ \<Rightarrow> None))"

text \<open>\<open>numToString n\<close> is \<open>String(n)\<close> for a natural number \<open>n\<close>; \<open>padStart2\<close> is \<open>padStart(2, '0')\<close>.\<close>

fun numToString :: "nat \<Rightarrow> string" where
  "numToString n = (if n < 10 then [char_of (n + 48)]
               else numToString (n div 10) @ [char_of (n mod 10 + 48)])"

declare numToString.simps [simp del]

definition padStart2 :: "string \<Rightarrow> string" where
  "padStart2 s = replicate (2 - length s) CHR ''0'' @ s"

definition minutesToTime :: "int \<Rightarrow> string" where
  "minutesToTime totalMinutes =
     (let hh = nat (\<bar>totalMinutes\<bar> div 60);
          mm = nat (\<bar>totalMinutes\<bar> mod 60);
          sign = (if totalMinutes < 0 then ''-'' else '''')
      in sign @ padStart2 (numToString hh) @ '':'' @ padStart2 (numToString mm))"


section \<open>DateUtils: calendar dates\<close>

text \<open>
  A \<open>Date\<close> is the number of days from 1970-01-01 to its local calendar day, or
  \<open>None\<close> for an invalid date. \<open>newDate y m d\<close> is \<open>new Date(y, m, d)\<close> with a
  zero-based month: years 0 to 99 mean 1900 to 1999, months and days out of range carry
  over, and a day more than 100,000,000 days from the epoch is invalid (\<open>timeClip\<close>).
  \<open>getDay\<close> is 0 for Sunday up to 6 for Saturday.
\<close>

definition daysFromCivil :: "int \<Rightarrow> int \<Rightarrow> int \<Rightarrow> int" where
  "daysFromCivil y m d =
     (let y' = (if m \<le> 2 then y - 1 else y);
          era = y' div 400;
          yoe = y' - era * 400;
          doy = (153 * (if m > 2 then m - 3 else m + 9) + 2) div 5 + d - 1;
          doe = yoe * 365 + yoe div 4 - yoe div 100 + doy
      in era * 146097 + doe - 719468)"

definition timeClip :: "int \<Rightarrow> int option" where
  "timeClip days = (if \<bar>days\<bar> \<le> 100000000 then Some days else None)"

definition newDate :: "int option \<Rightarrow> int option \<Rightarrow> int option \<Rightarrow> int option" where
  "newDate y m d =
     (case (y, m, d) of
        (Some yy, Some mm, Some dd) \<Rightarrow>
          (let fullYear = (if 0 \<le> yy \<and> yy \<le> 99 then 1900 + yy else yy)
           in timeClip (daysFromCivil (fullYear + mm div 12) (mm mod 12 + 1) dd))
      | _ \<Rightarrow> None)"

definition getDay :: "int option \<Rightarrow> int option" where
  "getDay date = map_option (\<lambda>days. (days + 4) mod 7) date"

text \<open>
  \<open>parseDateISO\<close> splits at the dashes, converts the first three parts and builds the
  date; a missing part is \<open>undefined\<close> and makes the date invalid.
\<close>

definition nthNumber :: "string list \<Rightarrow> nat \<Rightarrow> int option" where
  "nthNumber parts i = (if i < length parts then Number (parts ! i) else None)"

definition parseDateISO :: "string \<Rightarrow> int option" where
  "parseDateISO dateStr =
     (let parts = splitStr CHR ''-'' dateStr
      in newDate (nthNumber parts 0)
                 (map_option (\<lambda>m. m - 1) (nthNumber parts 1))
                 (nthNumber parts 2))"

definition isFriday :: "int option \<Rightarrow> bool" where
  "isFriday date = (getDay date = Some 5)"


section \<open>TimeCalculator\<close>

text \<open>
  An entry as the calculator reads it: its \<open>type\<close>, its \<open>time\<close> and its \<open>hours\<close>
  (the identifier and the creation timestamp of a \<open>TimeEntry\<close> play no part in any
  computation and are left out).
\<close>

record TimeEntry =
  type :: string
  time :: "string option"
  hours :: "rat option"

definition PAUSE_MINUTES :: int where "PAUSE_MINUTES = 30"
definition PAUSE_THRESHOLD_HOURS :: rat where "PAUSE_THRESHOLD_HOURS = 6"
definition WEEKLY_TARGET_MINUTES :: int where "WEEKLY_TARGET_MINUTES = 36 * 60"

text \<open>
  \<open>Math.round\<close> rounds to the nearest integer, halves upwards. Hours are rationals
  here and doubles in the code, so the product \<open>hours * 60\<close> that is rounded is exact
  here and rounded to a double there; the two are the same number where the hours are a
  multiple of a quarter of an hour, as the hours 7.5, 6 and 0 of the special entries are.
\<close>

definition Math_round :: "rat \<Rightarrow> int" where
  "Math_round x = \<lfloor>x + 1 / 2\<rfloor>"

text \<open>The loop of \<open>calculatePairMinutes\<close> over the pairs, from index \<open>i\<close>.\<close>

function pairLoop ::
  "string option list \<Rightarrow> string option list \<Rightarrow> nat \<Rightarrow> nat \<Rightarrow> int \<Rightarrow> int" where
  "pairLoop entrate uscite pairs i workedMinutes =
     (if i < pairs then
        (let entrataMinutes = parseTimeToMinutes (entrate ! i);
             uscitaMinutes = parseTimeToMinutes (uscite ! i)
         in case (entrataMinutes, uscitaMinutes) of
              (Some em, Some um) \<Rightarrow>
                (let diff = um - em
                 in if diff > 0 then pairLoop entrate uscite pairs (Suc i) (workedMinutes + diff)
                    else pairLoop entrate uscite pairs (Suc i) workedMinutes)
            | _ \<Rightarrow> pairLoop entrate uscite pairs (Suc i) workedMinutes)
      else workedMinutes)"
  by pat_completeness auto
termination
  by (relation "measure (\<lambda>(entrate, uscite, pairs, i, workedMinutes). pairs - i)") auto

declare pairLoop.simps [simp del]

text \<open>\<open>calculatePairMinutes\<close> returns \<open>(workedMinutes, hasIncomplete)\<close>.\<close>

definition calculatePairMinutes :: "TimeEntry list \<Rightarrow> int \<times> bool" where
  "calculatePairMinutes entries =
     (let entrate = map time (filter (\<lambda>e. type e = ''entrata'') entries);
          uscite = map time (filter (\<lambda>e. type e = ''uscita'') entries);
          hasIncomplete = (length entrate > length uscite);
          pairs = min (length entrate) (length uscite)
      in (pairLoop entrate uscite pairs 0 0, hasIncomplete))"

definition shouldApplyPause :: "int \<Rightarrow> string \<Rightarrow> bool" where
  "shouldApplyPause workedMinutes dateKey =
     (if isFriday (parseDateISO dateKey) then False
      else (let workedHours = rat_of_int workedMinutes / 60
            in workedHours > PAUSE_THRESHOLD_HOURS))"

record DayHours =
  minutes :: int
  formatted :: string
  hasIncomplete :: bool
  grossMinutes :: "int option"
  pauseApplied :: "bool option"

definition calculateDayHours :: "TimeEntry list \<Rightarrow> string \<Rightarrow> DayHours" where
  "calculateDayHours entries dateKey =
     (if entries = [] then
        \<lparr>minutes = 0, formatted = ''00:00'', hasIncomplete = False,
         grossMinutes = None, pauseApplied = None\<rparr>
      else if length entries = 1
              \<and> (type (entries ! 0) = ''smart'' \<or> type (entries ! 0) = ''assente'') then
        (let hrs = (case hours (entries ! 0) of None \<Rightarrow> 0 | Some h \<Rightarrow> h);
             mins = Math_round (hrs * 60)
         in \<lparr>minutes = mins, formatted = minutesToTime mins, hasIncomplete = False,
             grossMinutes = None, pauseApplied = None\<rparr>)
      else
        (let (workedMinutes, incomplete) = calculatePairMinutes entries;
             pauseMinutes = (if shouldApplyPause workedMinutes dateKey then PAUSE_MINUTES else 0);
             netMinutes = max 0 (workedMinutes - pauseMinutes)
         in \<lparr>minutes = netMinutes, formatted = minutesToTime netMinutes,
             hasIncomplete = incomplete, grossMinutes = Some workedMinutes,
             pauseApplied = Some (pauseMinutes > 0)\<rparr>))"


subsection \<open>The pairing rule as the specification words it\<close>

text \<open>
  The specification's reading of the pairing step: the clock-ins and the clock-outs are
  taken in recorded order, \<open>n\<close> is the smaller of the two counts, and the \<open>i\<close>-th pair
  contributes the difference of its times when that difference is positive, and nothing
  otherwise (nothing also when one of the two times is missing or malformed).
\<close>

definition pairContribution :: "string option \<Rightarrow> string option \<Rightarrow> int" where
  "pairContribution clockIn clockOut =
     (case (parseTimeToMinutes clockIn, parseTimeToMinutes clockOut) of
        (Some a, Some b) \<Rightarrow> (if b - a > 0 then b - a else 0)
      | _ \<Rightarrow> 0)"

definition clockTimes :: "string \<Rightarrow> TimeEntry list \<Rightarrow> string option list" where
  "clockTimes ty entries = map time (filter (\<lambda>e. type e = ty) entries)"

definition grossSpec :: "TimeEntry list \<Rightarrow> int" where
  "grossSpec entries =
     (let clockIn = clockTimes ''entrata'' entries;
          clockOut = clockTimes ''uscita'' entries;
          n = min (length clockIn) (length clockOut)
      in (\<Sum>i = 0..<n. pairContribution (clockIn ! i) (clockOut ! i)))"


section \<open>DateUtils: weeks\<close>

text \<open>
  \<open>civilFromDays\<close> reads the year, the month (1 to 12) and the day of the month off a
  date, as \<open>getFullYear\<close>, \<open>getMonth() + 1\<close> and \<open>getDate\<close> do. The week functions
  build their dates in UTC and \<open>formatDateISO\<close> reads them in local time; the model
  takes a local zone at or east of Greenwich, where both calendars give the same day to
  a UTC midnight.
\<close>

definition civilFromDays :: "int \<Rightarrow> int \<times> int \<times> int" where
  "civilFromDays days =
     (let z = days + 719468;
          era = z div 146097;
          doe = z - era * 146097;
          yoe = (doe - doe div 1460 + doe div 36524 - doe div 146096) div 365;
          doy = doe - (365 * yoe + yoe div 4 - yoe div 100);
          mp = (5 * doy + 2) div 153;
          d = doy - (153 * mp + 2) div 5 + 1;
          m = (if mp < 10 then mp + 3 else mp - 9)
      in (yoe + era * 400 + (if m \<le> 2 then 1 else 0), m, d))"

definition intToString :: "int \<Rightarrow> string" where
  "intToString i = (if i < 0 then ''-'' @ numToString (nat (- i)) else numToString (nat i))"

definition formatDateISO :: "int \<Rightarrow> string" where
  "formatDateISO date =
     (case civilFromDays date of
        (y, m, d) \<Rightarrow> intToString y @ ''-'' @ padStart2 (intToString m)
                      @ ''-'' @ padStart2 (intToString d))"

text \<open>The branch of \<open>getWeekKey\<close> that is given a year and a week number.\<close>

definition getWeekKey :: "int \<Rightarrow> int \<Rightarrow> string" where
  "getWeekKey yr wk = intToString yr @ ''-W'' @ padStart2 (intToString wk)"

text \<open>
  \<open>getWeekStartDate\<close>: the Monday of the week of January 4th, plus \<open>(week - 1) * 7\<close>
  days. It is \<open>None\<close> where JavaScript has an invalid date.
\<close>

definition getWeekStartDate :: "int \<Rightarrow> int \<Rightarrow> int option" where
  "getWeekStartDate yr wk =
     (case newDate (Some yr) (Some 0) (Some 4) of
        None \<Rightarrow> None
      | Some jan4 \<Rightarrow>
          (let dow = (jan4 + 4) mod 7;
               dayOfWeek = (if dow = 0 then 7 else dow)
           in case timeClip (jan4 - dayOfWeek + 1) of
                None \<Rightarrow> None
              | Some week1Monday \<Rightarrow> timeClip (week1Monday + (wk - 1) * 7)))"

definition getWorkWeekDates :: "int \<Rightarrow> int \<Rightarrow> int option list" where
  "getWorkWeekDates yr wk =
     map (\<lambda>i. case getWeekStartDate yr wk of
                None \<Rightarrow> None
              | Some monday \<Rightarrow> timeClip (monday + int i)) [0..<5]"

text \<open>
  \<open>parseWeekKey\<close> matches \<open>/^(\d{4})-W(\d{2})$/\<close> and throws an error on a string that
  does not match; the throw is the value \<open>Inl FormatError\<close> (the other errors are those
  that the storage adapters throw). \<open>parseInt10\<close> is
  \<open>parseInt(s, 10)\<close> on the strings of digits that the pattern lets through.
\<close>

datatype error = FormatError | LocalStorageUnavailable | QuotaExceeded | IndexedDBNotInitialized

fun weekKeyPattern :: "string \<Rightarrow> bool" where
  "weekKeyPattern [y1, y2, y3, y4, dash, w, w1, w2] =
     (isDigit y1 \<and> isDigit y2 \<and> isDigit y3 \<and> isDigit y4
      \<and> dash = CHR ''-'' \<and> w = CHR ''W'' \<and> isDigit w1 \<and> isDigit w2)"
| "weekKeyPattern _ = False"

definition parseInt10 :: "string \<Rightarrow> int option" where
  "parseInt10 s = (if s \<noteq> [] \<and> list_all isDigit s
                   then Some (int (foldl (\<lambda>a c. 10 * a + digitVal c) 0 s)) else None)"

definition parseWeekKey :: "string \<Rightarrow> error + (int option \<times> int option)" where
  "parseWeekKey wkey =
     (if \<not> weekKeyPattern wkey then Inl FormatError
      else Inr (parseInt10 (take 4 wkey), parseInt10 (drop 6 wkey)))"

text \<open>
  The pattern \<open>/^\d{4}-W([0-4][0-9]|5[0-3])$/\<close> of \<open>validateWeekKey\<close>, which the import
  of a file checks on every key of the payload before \<open>importData\<close> is called.
\<close>

definition validateWeekKey :: "string \<Rightarrow> bool" where
  "validateWeekKey s =
     (length s = 8 \<and> list_all isDigit (take 4 s) \<and> s ! 4 = CHR ''-'' \<and> s ! 5 = CHR ''W''
      \<and> ((CHR ''0'' \<le> s ! 6 \<and> s ! 6 \<le> CHR ''4'' \<and> isDigit (s ! 7))
         \<or> (s ! 6 = CHR ''5'' \<and> CHR ''0'' \<le> s ! 7 \<and> s ! 7 \<le> CHR ''3'')))"

section \<open>TimeEntry\<close>

definition TIME_REQUIRED_TYPES :: "string list" where
  "TIME_REQUIRED_TYPES = [''entrata'', ''uscita'']"

definition SPECIAL_TYPES :: "string list" where
  "SPECIAL_TYPES = [''smart'', ''assente'']"

definition requiresTime :: "string \<Rightarrow> bool" where
  "requiresTime ty = (ty \<in> set TIME_REQUIRED_TYPES)"

definition isSpecialType :: "string \<Rightarrow> bool" where
  "isSpecialType ty = (ty \<in> set SPECIAL_TYPES)"

definition normalizeTime :: "string option \<Rightarrow> string option" where
  "normalizeTime t =
     (if \<not> validateTime t then None
      else (case map Number (splitStr CHR '':'' (the t)) of
              [Some hh, Some mm] \<Rightarrow>
                Some (padStart2 (intToString hh) @ '':'' @ padStart2 (intToString mm))
            | _ \<Rightarrow> None))"

definition SMART_HOURS_DEFAULT :: rat where "SMART_HOURS_DEFAULT = 15 / 2"
definition SMART_HOURS_FRIDAY :: rat where "SMART_HOURS_FRIDAY = 6"
definition ABSENT_HOURS :: rat where "ABSENT_HOURS = 0"

definition getDefaultHours :: "string \<Rightarrow> bool \<Rightarrow> rat" where
  "getDefaultHours ty friday =
     (if ty = ''smart'' then (if friday then SMART_HOURS_FRIDAY else SMART_HOURS_DEFAULT)
      else if ty = ''assente'' then ABSENT_HOURS
      else 0)"

text \<open>
  The constructor takes a plain object with the fields \<open>type\<close>, \<open>time\<close> and \<open>hours\<close>,
  which is a record of the same shape as the entry it builds.
\<close>

definition TimeEntry_new :: "TimeEntry \<Rightarrow> TimeEntry" where
  "TimeEntry_new d =
     \<lparr>type = type d,
      time = (if requiresTime (type d) then normalizeTime (time d) else None),
      hours = (if isSpecialType (type d)
               then (case hours d of None \<Rightarrow> Some (getDefaultHours (type d) False)
                                   | Some h \<Rightarrow> Some h)
               else None)\<rparr>"

definition isSmart :: "TimeEntry \<Rightarrow> bool" where
  "isSmart e = (type e = ''smart'')"

definition isSpecial :: "TimeEntry \<Rightarrow> bool" where
  "isSpecial e = isSpecialType (type e)"

text \<open>
  The argument of \<open>update\<close>. A field that is \<open>undefined\<close> is \<open>None\<close>; a field that is
  given holds \<open>Some v\<close>, where \<open>v\<close> may itself be \<open>null\<close> (\<open>Some None\<close>).
\<close>

record Updates =
  upd_type :: "string option"
  upd_time :: "string option option"
  upd_hours :: "rat option option"

definition update :: "TimeEntry \<Rightarrow> Updates \<Rightarrow> TimeEntry" where
  "update e u =
     (let e1 = (case upd_type u of None \<Rightarrow> e | Some ty \<Rightarrow> e\<lparr>type := ty\<rparr>);
          e2 = (case upd_time u of
                  None \<Rightarrow> e1
                | Some t \<Rightarrow> if requiresTime (type e1) then e1\<lparr>time := normalizeTime t\<rparr> else e1);
          e3 = (case upd_hours u of
                  None \<Rightarrow> e2
                | Some h \<Rightarrow> if isSpecialType (type e2) then e2\<lparr>hours := h\<rparr> else e2)
      in e3)"

text \<open>
  The serialized entry: \<open>json_time\<close> and \<open>json_hours\<close> are \<open>None\<close> when the key is
  absent; a present \<open>time\<close> key may hold \<open>null\<close>.
\<close>

record EntryJSON =
  json_type :: string
  json_time :: "string option option"
  json_hours :: "rat option"

definition TimeEntry_toJSON :: "TimeEntry \<Rightarrow> EntryJSON" where
  "TimeEntry_toJSON e =
     \<lparr>json_type = type e,
      json_time = (if requiresTime (type e)
                   then Some (if time e = Some [] then None else time e) else None),
      json_hours = hours e\<rparr>"

section \<open>WeekData\<close>

text \<open>
  The \<open>Map\<close> from date keys to entry lists is an association list in insertion order;
  \<open>Map_set\<close> replaces the value of a present key where it stands and appends an absent
  key. Entries are objects that the code mutates in place; the model replaces the
  entry in its list.
\<close>

type_synonym EntryMap = "(string \<times> TimeEntry list) list"

definition Map_has :: "string \<Rightarrow> EntryMap \<Rightarrow> bool" where
  "Map_has k m = (k \<in> set (map fst m))"

definition Map_get :: "string \<Rightarrow> EntryMap \<Rightarrow> TimeEntry list option" where
  "Map_get k m = map_of m k"

definition Map_set :: "string \<Rightarrow> TimeEntry list \<Rightarrow> EntryMap \<Rightarrow> EntryMap" where
  "Map_set k v m =
     (if Map_has k m then map (\<lambda>p. if fst p = k then (k, v) else p) m else m @ [(k, v)])"

record WeekData =
  year :: int
  week :: int
  weekKey :: string
  entries :: EntryMap

text \<open>What \<open>addEntry\<close> is given: a \<open>TimeEntry\<close> instance or a plain object.\<close>

datatype EntryArg = Instance TimeEntry | Plain TimeEntry

definition clearDay :: "string \<Rightarrow> WeekData \<Rightarrow> WeekData" where
  "clearDay dateKey wd =
     (if Map_has dateKey (entries wd) then wd\<lparr>entries := Map_set dateKey [] (entries wd)\<rparr>
      else wd)"

definition getEntriesForDate :: "string \<Rightarrow> WeekData \<Rightarrow> TimeEntry list" where
  "getEntriesForDate dateKey wd =
     (case Map_get dateKey (entries wd) of None \<Rightarrow> [] | Some es \<Rightarrow> es)"

text \<open>
  \<open>asTimeEntry\<close> is the first line of \<open>addEntry\<close>: an instance is taken as it is, a
  plain object goes through the constructor. \<open>addEntry\<close> returns the week and the entry
  it stored.
\<close>

definition asTimeEntry :: "EntryArg \<Rightarrow> TimeEntry" where
  "asTimeEntry entry = (case entry of Instance e \<Rightarrow> e | Plain d \<Rightarrow> TimeEntry_new d)"

definition addEntry :: "string \<Rightarrow> EntryArg \<Rightarrow> WeekData \<Rightarrow> WeekData \<times> TimeEntry" where
  "addEntry dateKey entry wd =
     (let timeEntry = asTimeEntry entry;
          wd1 = (if isSpecial timeEntry then clearDay dateKey wd else wd);
          timeEntry1 = (if isSpecial timeEntry \<and> isSmart timeEntry
                           \<and> isFriday (parseDateISO dateKey)
                        then timeEntry\<lparr>hours := Some SMART_HOURS_FRIDAY\<rparr> else timeEntry);
          wd2 = (if \<not> Map_has dateKey (entries wd1)
                 then wd1\<lparr>entries := Map_set dateKey [] (entries wd1)\<rparr> else wd1);
          wd3 = wd2\<lparr>entries := Map_set dateKey (getEntriesForDate dateKey wd2 @ [timeEntry1])
                                   (entries wd2)\<rparr>
      in (wd3, timeEntry1))"

text \<open>
  \<open>updateEntry\<close> and \<open>deleteEntry\<close> return the week and the entry, or \<open>None\<close> for the
  \<open>null\<close> of a missing date or an index out of range.
\<close>

definition updateEntry ::
  "string \<Rightarrow> int \<Rightarrow> Updates \<Rightarrow> WeekData \<Rightarrow> WeekData \<times> TimeEntry option" where
  "updateEntry dateKey index updates wd =
     (case Map_get dateKey (entries wd) of
        None \<Rightarrow> (wd, None)
      | Some es \<Rightarrow>
          if index < 0 \<or> index \<ge> int (length es) then (wd, None)
          else
            (let entry = es ! nat index
             in if (case upd_type updates of
                      None \<Rightarrow> False
                    | Some ty \<Rightarrow> ty \<noteq> [] \<and> ty \<in> set [''smart'', ''assente''])
                   \<and> \<not> isSpecial entry
                then
                  (let updatedEntry = update entry updates;
                       wd1 = clearDay dateKey wd;
                       wd2 = wd1\<lparr>entries :=
                               Map_set dateKey (getEntriesForDate dateKey wd1 @ [updatedEntry])
                                 (entries wd1)\<rparr>
                   in (wd2, Some updatedEntry))
                else
                  (wd\<lparr>entries := Map_set dateKey (es[nat index := update entry updates])
                                   (entries wd)\<rparr>,
                   Some (update entry updates))))"

definition deleteEntry :: "string \<Rightarrow> int \<Rightarrow> WeekData \<Rightarrow> WeekData \<times> TimeEntry option" where
  "deleteEntry dateKey index wd =
     (case Map_get dateKey (entries wd) of
        None \<Rightarrow> (wd, None)
      | Some es \<Rightarrow>
          if index < 0 \<or> index \<ge> int (length es) then (wd, None)
          else (wd\<lparr>entries := Map_set dateKey (take (nat index) es @ drop (Suc (nat index)) es)
                                  (entries wd)\<rparr>,
                Some (es ! nat index)))"

definition isSpecialDay :: "string \<Rightarrow> WeekData \<Rightarrow> bool" where
  "isSpecialDay dateKey wd =
     (case Map_get dateKey (entries wd) of
        None \<Rightarrow> False
      | Some es \<Rightarrow> length es = 1 \<and> isSpecial (es ! 0))"


text \<open>
  The value of a date in the object given to \<open>loadFromJSON\<close>: an array of plain
  entries, or something that is not an array, which the loop skips.
\<close>

datatype DayValue = Entries "TimeEntry list" | NotArray

fun loadFromJSON :: "(string \<times> DayValue) list \<Rightarrow> WeekData \<Rightarrow> WeekData" where
  "loadFromJSON [] wd = wd"
| "loadFromJSON ((dateKey, NotArray) # rest) wd = loadFromJSON rest wd"
| "loadFromJSON ((dateKey, Entries es) # rest) wd =
     loadFromJSON rest (foldl (\<lambda>w entryData. fst (addEntry dateKey (Plain entryData) w)) wd es)"


text \<open>
  \<open>initializeWorkDays\<close> gives each of the five working days of the week an empty list,
  unless the date is there already. An invalid date is formatted as \<open>NaN-NaN-NaN\<close>.
\<close>

definition initializeWorkDays :: "WeekData \<Rightarrow> WeekData" where
  "initializeWorkDays wd =
     foldl (\<lambda>w date.
              (let dateKey = (case date of None \<Rightarrow> ''NaN-NaN-NaN'' | Some d \<Rightarrow> formatDateISO d)
               in if \<not> Map_has dateKey (entries w)
                  then w\<lparr>entries := Map_set dateKey [] (entries w)\<rparr> else w))
           wd (getWorkWeekDates (year wd) (week wd))"

definition WeekData_new :: "int \<Rightarrow> int \<Rightarrow> (string \<times> DayValue) list \<Rightarrow> WeekData" where
  "WeekData_new yr wk initialData =
     (let wd = initializeWorkDays
                 \<lparr>year = yr, week = wk, weekKey = getWeekKey yr wk, entries = []\<rparr>
      in if length initialData > 0 then loadFromJSON initialData wd else wd)"

subsection \<open>The exclusivity invariant as the specification words it\<close>

text \<open>
  A date holds no entry, or exactly one special entry, or clock-in and clock-out
  entries only.
\<close>

definition isClock :: "TimeEntry \<Rightarrow> bool" where
  "isClock e = (type e = ''entrata'' \<or> type e = ''uscita'')"

definition dayInvariant :: "TimeEntry list \<Rightarrow> bool" where
  "dayInvariant es =
     (es = [] \<or> (length es = 1 \<and> isSpecial (es ! 0)) \<or> list_all isClock es)"

definition weekInvariant :: "WeekData \<Rightarrow> bool" where
  "weekInvariant wd = list_all (\<lambda>p. dayInvariant (snd p)) (entries wd)"

text \<open>The entry types that validation accepts.\<close>

definition VALID_ENTRY_TYPES :: "string list" where
  "VALID_ENTRY_TYPES = [''entrata'', ''uscita'', ''smart'', ''assente'']"

text \<open>A date's value in a serialized week keeps the invariant of a day.\<close>

definition dayValueInvariant :: "DayValue \<Rightarrow> bool" where
  "dayValueInvariant v = (case v of Entries es \<Rightarrow> dayInvariant es | NotArray \<Rightarrow> True)"


section \<open>Storage\<close>

text \<open>
  The stored aggregate is a JavaScript object from week keys to serialized weeks: an
  association list of its own keys in insertion order. A serialized week is an object,
  so a key that is present holds a truthy value. The property access \<open>obj[k]\<close> also
  finds what every object inherits from \<open>Object.prototype\<close>, under the names
  \<open>objectPrototypeNames\<close>, and all of that is truthy as well: \<open>propertyTruthy obj k\<close>
  is the truth of \<open>obj[k]\<close>. \<open>objectSet\<close> is the assignment \<open>obj[k] = v\<close> for a
  name that is a key or is not inherited.
\<close>

type_synonym WeekJSON = "(string \<times> EntryJSON list) list"
type_synonym Aggregate = "(string \<times> WeekJSON) list"

definition objectPrototypeNames :: "string list" where
  "objectPrototypeNames =
     [''constructor'', ''__defineGetter__'', ''__defineSetter__'', ''hasOwnProperty'',
      ''__lookupGetter__'', ''__lookupSetter__'', ''isPrototypeOf'',
      ''propertyIsEnumerable'', ''toString'', ''valueOf'', ''__proto__'',
      ''toLocaleString'']"

definition propertyTruthy :: "Aggregate \<Rightarrow> string \<Rightarrow> bool" where
  "propertyTruthy obj k = (map_of obj k \<noteq> None \<or> k \<in> set objectPrototypeNames)"

definition objectSet :: "string \<Rightarrow> WeekJSON \<Rightarrow> Aggregate \<Rightarrow> Aggregate" where
  "objectSet k v obj =
     (if k \<in> set (map fst obj) then map (\<lambda>p. if fst p = k then (k, v) else p) obj
      else obj @ [(k, v)])"

subsection \<open>LocalStorageAdapter\<close>

text \<open>
  \<open>storedItem\<close> is the item under the storage key (\<open>None\<close> when there is none).
  \<open>quotaExceededFor\<close> holds the aggregates whose serialization the browser does not
  take: \<open>setItem\<close> throws for them, \<open>saveAllData\<close> throws the same error again, and the
  item stays as it was. The counter item of \<open>incrementSaveCount\<close>, which ignores its
  own errors, is not part of the model.
\<close>

record LocalStorageAdapter =
  isAvailable :: bool
  storedItem :: "Aggregate option"
  quotaExceededFor :: "Aggregate set"

definition LS_saveAllData :: "Aggregate \<Rightarrow> LocalStorageAdapter \<Rightarrow> error + LocalStorageAdapter" where
  "LS_saveAllData d ls =
     (if \<not> isAvailable ls then Inl LocalStorageUnavailable
      else if d \<in> quotaExceededFor ls then Inl QuotaExceeded
      else Inr (ls\<lparr>storedItem := Some d\<rparr>))"

definition LS_loadAllData :: "LocalStorageAdapter \<Rightarrow> Aggregate" where
  "LS_loadAllData ls =
     (if \<not> isAvailable ls then []
      else (case storedItem ls of None \<Rightarrow> [] | Some d \<Rightarrow> d))"

subsection \<open>IndexedDBAdapter\<close>

text \<open>
  \<open>db_open\<close> says that \<open>db\<close> is not \<open>null\<close>. The object store \<open>weeks\<close> is kept in
  the order of its keys, which is the order in which \<open>getAll\<close> returns it; \<open>storePut\<close>
  is \<open>store.put\<close>. A backup has the key that the store generated for it, its
  timestamp and its snapshot; the store \<open>backups\<close> is in the order of the keys, and
  \<open>nextKey\<close> is the key that the generator gives next.
\<close>

record Backup =
  backup_id :: nat
  timestamp :: int
  backup_data :: Aggregate

record IndexedDBAdapter =
  db_open :: bool
  weeks :: Aggregate
  backups :: "Backup list"
  nextKey :: nat

definition storePut :: "string \<Rightarrow> WeekJSON \<Rightarrow> Aggregate \<Rightarrow> Aggregate" where
  "storePut k v store = insort_key fst (k, v) (filter (\<lambda>p. fst p \<noteq> k) store)"

definition IDB_saveAllData :: "Aggregate \<Rightarrow> IndexedDBAdapter \<Rightarrow> error + IndexedDBAdapter" where
  "IDB_saveAllData d idb =
     (if \<not> db_open idb then Inl IndexedDBNotInitialized
      else Inr (idb\<lparr>weeks := foldl (\<lambda>store p. storePut (fst p) (snd p) store) [] d\<rparr>))"

text \<open>
  \<open>loadAllData\<close> assigns each record of the store into a plain object,
  \<open>data[item.weekKey] = item.data\<close>; a record under the key \<open>__proto__\<close> becomes the
  prototype of that object and not a key of it. What the object then inherits from
  that record is not part of the model: the statements below take a store whose keys
  are week keys.
\<close>

definition IDB_loadAllData :: "IndexedDBAdapter \<Rightarrow> Aggregate" where
  "IDB_loadAllData idb =
     (if \<not> db_open idb then []
      else filter (\<lambda>(wkKey, wkData). wkKey \<noteq> ''__proto__'') (weeks idb))"




subsection \<open>StorageManager\<close>

text \<open>
  \<open>idbFailsFor\<close> holds the aggregates for which a request of the write transaction of
  the \<open>IndexedDB\<close> adapter fails: the promise of the request is rejected, and the
  transaction is aborted, which leaves the store as it was.
\<close>

record StorageManager =
  localStorage :: LocalStorageAdapter
  indexedDB :: IndexedDBAdapter
  useIndexedDB :: bool
  idbFailsFor :: "Aggregate set"

text \<open>\<open>saveAllData\<close> catches what the adapters throw and returns \<open>false\<close> then.\<close>

definition saveAllData :: "Aggregate \<Rightarrow> StorageManager \<Rightarrow> StorageManager \<times> bool" where
  "saveAllData d sm =
     (case LS_saveAllData d (localStorage sm) of
        Inl e \<Rightarrow> (sm, False)
      | Inr ls \<Rightarrow>
          (let sm1 = sm\<lparr>localStorage := ls\<rparr>
           in if useIndexedDB sm1 then
                (case IDB_saveAllData d (indexedDB sm1) of
                   Inl e \<Rightarrow> (sm1, False)
                 | Inr idb \<Rightarrow>
                     (if d \<in> idbFailsFor sm1 then (sm1, False)
                      else (sm1\<lparr>indexedDB := idb\<rparr>, True)))
              else (sm1, True)))"

definition loadAllData :: "StorageManager \<Rightarrow> Aggregate" where
  "loadAllData sm =
     (if useIndexedDB sm \<and> db_open (indexedDB sm) then
        (let idbData = IDB_loadAllData (indexedDB sm)
         in if length idbData > 0 then idbData else LS_loadAllData (localStorage sm))
      else LS_loadAllData (localStorage sm))"

text \<open>
  The loop of \<open>importData\<close> in merge mode over the entries of the payload, on the
  current data and the two counters \<open>imported\<close> and \<open>existing\<close>. The test is
  \<open>if (currentData[weekKey])\<close>.
\<close>

fun mergeLoop :: "Aggregate \<Rightarrow> Aggregate \<times> nat \<times> nat \<Rightarrow> Aggregate \<times> nat \<times> nat" where
  "mergeLoop [] acc = acc"
| "mergeLoop ((wkKey, wkData) # rest) (currentData, imp, ex) =
     (if propertyTruthy currentData wkKey
      then mergeLoop rest (currentData, imp, ex + 1)
      else mergeLoop rest (objectSet wkKey wkData currentData, imp + 1, ex))"

record ImportResult =
  success :: bool
  imported :: nat
  existing :: nat

text \<open>
  \<open>importData\<close> does not look at what \<open>saveAllData\<close> returns: it reports success
  also when nothing was saved.
\<close>

definition importData :: "Aggregate \<Rightarrow> bool \<Rightarrow> StorageManager \<Rightarrow> StorageManager \<times> ImportResult" where
  "importData payload merge sm =
     (if merge then
        (let currentData = loadAllData sm;
             (merged, imp, ex) = mergeLoop payload (currentData, 0, 0);
             (sm', ok) = saveAllData merged sm
         in (sm', \<lparr>success = True, imported = imp, existing = ex\<rparr>))
      else
        (let (sm', ok) = saveAllData payload sm
         in (sm', \<lparr>success = True, imported = length payload, existing = 0\<rparr>)))"

subsection \<open>The backup log as the specification words it\<close>




section \<open>Properties of the calculator\<close>

lemma pairLoop_sum:
  "pairLoop E U n i acc = acc + (\<Sum>k = i..<n. pairContribution (E ! k) (U ! k))"
proof (induction E U n i acc rule: pairLoop.induct)
  case (1 E U n i acc)
  show ?case
  proof (cases "i < n")
    case False
    then show ?thesis by (simp add: pairLoop.simps)
  next
    case True
    then have split: "(\<Sum>k = i..<n. pairContribution (E ! k) (U ! k))
        = pairContribution (E ! i) (U ! i) + (\<Sum>k = Suc i..<n. pairContribution (E ! k) (U ! k))"
      by (simp add: sum.atLeast_Suc_lessThan)
    show ?thesis
    proof (cases "parseTimeToMinutes (E ! i)")
      case None
      with True 1 split show ?thesis
        by (subst pairLoop.simps) (simp add: pairContribution_def)
    next
      case (Some a)
      note Sa = Some
      show ?thesis
      proof (cases "parseTimeToMinutes (U ! i)")
        case None
        with True Sa 1 split show ?thesis
          by (subst pairLoop.simps) (simp add: pairContribution_def)
      next
        case (Some b)
        with True Sa 1 split show ?thesis
          by (subst pairLoop.simps) (simp add: pairContribution_def Let_def)
      qed
    qed
  qed
qed

lemma pairLoop_nonneg: "0 \<le> acc \<Longrightarrow> 0 \<le> pairLoop E U n i acc"
  by (simp add: pairLoop_sum pairContribution_def sum_nonneg split: option.splits)

lemma calculatePairMinutes_nonneg: "0 \<le> fst (calculatePairMinutes es)"
  by (simp add: calculatePairMinutes_def Let_def pairLoop_nonneg)

lemma calculatePairMinutes_Nil: "calculatePairMinutes [] = (0, False)"
  by (simp add: calculatePairMinutes_def pairLoop.simps)

lemma shouldApplyPause_iff:
  "shouldApplyPause w dateKey \<longleftrightarrow> \<not> isFriday (parseDateISO dateKey) \<and> w > 360"
  by (simp add: shouldApplyPause_def PAUSE_THRESHOLD_HOURS_def Let_def less_divide_eq)

text \<open>
  C4. For every entry list the pairing step returns, as worked minutes, the sum over the
  first \<open>min (count clock-in) (count clock-out)\<close> pairs, in recorded order, of the
  clock-out time minus the clock-in time where that difference is strictly positive, and
  \<open>hasIncomplete\<close> is true exactly when there are more clock-ins than clock-outs.
\<close>

theorem calculatePairMinutes_is_grossSpec:
  "calculatePairMinutes es =
     (grossSpec es,
      length (filter (\<lambda>e. type e = ''entrata'') es)
        > length (filter (\<lambda>e. type e = ''uscita'') es))"
  by (simp add: calculatePairMinutes_def grossSpec_def clockTimes_def Let_def pairLoop_sum)

text \<open>
  Two pairs of four hours each give 480 minutes; a clock-out at 12:00 recorded before a
  clock-in at 13:00 is paired with it and contributes nothing; a clock-in without a
  clock-out is incomplete.
\<close>

theorem calculatePairMinutes_is_grossSpec_witness:
  "calculatePairMinutes
     [\<lparr>type = ''entrata'', time = Some ''08:00'', hours = None\<rparr>,
      \<lparr>type = ''uscita'', time = Some ''12:00'', hours = None\<rparr>,
      \<lparr>type = ''entrata'', time = Some ''13:00'', hours = None\<rparr>,
      \<lparr>type = ''uscita'', time = Some ''17:00'', hours = None\<rparr>] = (480, False)
   \<and> calculatePairMinutes
     [\<lparr>type = ''uscita'', time = Some ''12:00'', hours = None\<rparr>,
      \<lparr>type = ''entrata'', time = Some ''13:00'', hours = None\<rparr>] = (0, False)
   \<and> calculatePairMinutes
     [\<lparr>type = ''entrata'', time = Some ''08:00'', hours = None\<rparr>] = (0, True)"
proof -
  have a: "grossSpec
     [\<lparr>type = ''entrata'', time = Some ''08:00'', hours = None\<rparr>,
      \<lparr>type = ''uscita'', time = Some ''12:00'', hours = None\<rparr>,
      \<lparr>type = ''entrata'', time = Some ''13:00'', hours = None\<rparr>,
      \<lparr>type = ''uscita'', time = Some ''17:00'', hours = None\<rparr>] = 480" by code_simp
  have b: "grossSpec
     [\<lparr>type = ''uscita'', time = Some ''12:00'', hours = None\<rparr>,
      \<lparr>type = ''entrata'', time = Some ''13:00'', hours = None\<rparr>] = 0" by code_simp
  have c: "grossSpec [\<lparr>type = ''entrata'', time = Some ''08:00'', hours = None\<rparr>] = 0"
    by code_simp
  show ?thesis
    unfolding calculatePairMinutes_is_grossSpec a b c by simp
qed




text \<open>
  C1, as stated, fails: on Friday 2026-02-06 the es 08:00 to 17:00 have 540 gross
  minutes, above 360, and the net minutes are 540, not 510. \<open>shouldApplyPause\<close> returns
  false on a Friday before it looks at the worked minutes.
\<close>

theorem calculateDayHours_friday_break_counterexample:
  "isFriday (parseDateISO ''2026-02-06'')
   \<and> fst (calculatePairMinutes
        [\<lparr>type = ''entrata'', time = Some ''08:00'', hours = None\<rparr>,
         \<lparr>type = ''uscita'', time = Some ''17:00'', hours = None\<rparr>]) > 360
   \<and> minutes (calculateDayHours
        [\<lparr>type = ''entrata'', time = Some ''08:00'', hours = None\<rparr>,
         \<lparr>type = ''uscita'', time = Some ''17:00'', hours = None\<rparr>] ''2026-02-06'') = 540
   \<and> minutes (calculateDayHours
        [\<lparr>type = ''entrata'', time = Some ''08:00'', hours = None\<rparr>,
         \<lparr>type = ''uscita'', time = Some ''17:00'', hours = None\<rparr>] ''2026-02-06'')
       \<noteq> fst (calculatePairMinutes
        [\<lparr>type = ''entrata'', time = Some ''08:00'', hours = None\<rparr>,
         \<lparr>type = ''uscita'', time = Some ''17:00'', hours = None\<rparr>]) - 30"
  by code_simp

text \<open>
  C1, amended. On a date that is a Friday no break is deducted, whatever the gross
  minutes: for es that reach the pairing step the net minutes equal the gross
  minutes, and the break is never reported as applied.
\<close>

theorem calculateDayHours_friday_no_break:
  assumes "isFriday (parseDateISO dateKey)"
    and "\<not> (length es = 1
             \<and> (type (es ! 0) = ''smart'' \<or> type (es ! 0) = ''assente''))"
  shows "minutes (calculateDayHours es dateKey) = fst (calculatePairMinutes es)
         \<and> pauseApplied (calculateDayHours es dateKey) \<noteq> Some True"
proof (cases "es = []")
  case True
  then show ?thesis by (simp add: calculateDayHours_def calculatePairMinutes_Nil)
next
  case False
  obtain w inc where p: "calculatePairMinutes es = (w, inc)"
    by (cases "calculatePairMinutes es")
  have "0 \<le> w" using calculatePairMinutes_nonneg [of es] p by simp
  with False assms p show ?thesis
    by (auto simp: calculateDayHours_def shouldApplyPause_iff PAUSE_MINUTES_def Let_def)
qed

theorem calculateDayHours_friday_no_break_witness:
  "isFriday (parseDateISO ''2026-02-06'')
   \<and> minutes (calculateDayHours
        [\<lparr>type = ''entrata'', time = Some ''08:00'', hours = None\<rparr>,
         \<lparr>type = ''uscita'', time = Some ''17:00'', hours = None\<rparr>] ''2026-02-06'') = 540"
proof -
  have fr: "isFriday (parseDateISO ''2026-02-06'')" by code_simp
  have g: "fst (calculatePairMinutes
        [\<lparr>type = ''entrata'', time = Some ''08:00'', hours = None\<rparr>,
         \<lparr>type = ''uscita'', time = Some ''17:00'', hours = None\<rparr>]) = 540" by code_simp
  show ?thesis
    using fr g
      calculateDayHours_friday_no_break [of "''2026-02-06''"
        "[\<lparr>type = ''entrata'', time = Some ''08:00'', hours = None\<rparr>,
          \<lparr>type = ''uscita'', time = Some ''17:00'', hours = None\<rparr>]"]
    by simp
qed

section \<open>Properties of the week keys\<close>

lemma isDigit_char_of: "d < 10 \<Longrightarrow> isDigit (char_of (d + 48 :: nat))"
  by (simp add: isDigit_def less_eq_char_def)

lemma digitVal_char_of: "d < 10 \<Longrightarrow> digitVal (char_of (d + 48 :: nat)) = d"
  by (simp add: digitVal_def)

lemma numToString_1: "n < 10 \<Longrightarrow> numToString n = [char_of (n + 48)]"
  by (simp add: numToString.simps)

lemma numToString_2:
  "10 \<le> n \<Longrightarrow> n < 100 \<Longrightarrow> numToString n = [char_of (n div 10 + 48), char_of (n mod 10 + 48)]"
  by (subst numToString.simps) (simp add: numToString_1)

lemma numToString_3:
  "100 \<le> n \<Longrightarrow> n < 1000 \<Longrightarrow>
   numToString n = [char_of (n div 100 + 48), char_of (n div 10 mod 10 + 48), char_of (n mod 10 + 48)]"
  by (subst numToString.simps) (simp add: numToString_2 div_mult2_eq [symmetric])

lemma numToString_4:
  "1000 \<le> n \<Longrightarrow> n < 10000 \<Longrightarrow>
   numToString n = [char_of (n div 1000 + 48), char_of (n div 100 mod 10 + 48),
                    char_of (n div 10 mod 10 + 48), char_of (n mod 10 + 48)]"
  by (subst numToString.simps) (simp add: numToString_3 div_mult2_eq [symmetric])

lemma char_of_48: "char_of (48::nat) = CHR ''0''"
  by code_simp

lemma padStart2_week:
  "1 \<le> n \<Longrightarrow> n \<le> 53 \<Longrightarrow>
   padStart2 (numToString n) = [char_of (n div 10 + 48), char_of (n mod 10 + 48)]"
proof (cases "n < 10")
  case True
  then show ?thesis by (simp add: numToString_1 padStart2_def char_of_48)
next
  case False
  assume "n \<le> 53"
  with False show ?thesis by (simp add: numToString_2 padStart2_def)
qed



lemma digits_numToString:
  "numToString n \<noteq> [] \<and> list_all isDigit (numToString n)
   \<and> foldl (\<lambda>a c. 10 * a + digitVal c) 0 (numToString n) = n"
proof (induction n rule: numToString.induct)
  case (1 n)
  show ?case
  proof (cases "n < 10")
    case True
    then show ?thesis by (simp add: numToString_1 isDigit_char_of digitVal_char_of)
  next
    case False
    then have unfold: "numToString n = numToString (n div 10) @ [char_of (n mod 10 + 48)]"
      by (subst numToString.simps) simp
    have d: "n mod 10 < 10" by simp
    from False 1 have ih: "list_all isDigit (numToString (n div 10))"
      "foldl (\<lambda>a c. 10 * a + digitVal c) 0 (numToString (n div 10)) = n div 10"
      by simp_all
    show ?thesis
      using ih d by (simp add: unfold isDigit_char_of digitVal_char_of)
  qed
qed

lemma parseInt10_numToString: "parseInt10 (numToString n) = Some (int n)"
  using digits_numToString [of n] by (simp add: parseInt10_def)

lemma parseInt10_week:
  assumes "w \<le> 53"
  shows "parseInt10 [char_of (w div 10 + 48), char_of (w mod 10 + 48)] = Some (int w)"
proof -
  have "w div 10 < 10" "w mod 10 < 10" using assms by simp_all
  then show ?thesis
    by (simp add: parseInt10_def isDigit_char_of digitVal_char_of)
qed

text \<open>
  C9. For every four-digit year and every week from 1 to 53, \<open>parseWeekKey\<close> of
  \<open>getWeekKey year week\<close> returns exactly the year and the week; the key is the year,
  \<open>-W\<close> and the week padded with a zero to two digits, eight characters in all; and
  \<open>parseWeekKey\<close> fails with the format error on every string that does not match the
  pattern.
\<close>

theorem parseWeekKey_getWeekKey:
  assumes "1000 \<le> yr" "yr \<le> 9999" "1 \<le> wk" "wk \<le> 53"
  shows "parseWeekKey (getWeekKey yr wk) = Inr (Some yr, Some wk)
         \<and> getWeekKey yr wk = numToString (nat yr) @ ''-W''
              @ [char_of (nat wk div 10 + 48), char_of (nat wk mod 10 + 48)]
         \<and> length (getWeekKey yr wk) = 8
         \<and> (\<forall>s. \<not> weekKeyPattern s \<longrightarrow> parseWeekKey s = Inl FormatError)"
proof -
  define y where "y = nat yr"
  define w where "w = nat wk"
  have y: "1000 \<le> y" "y < 10000" "yr = int y" using assms by (simp_all add: y_def)
  have w: "1 \<le> w" "w \<le> 53" "wk = int w" using assms by (simp_all add: w_def)
  have y4: "numToString y =
     [char_of (y div 1000 + 48), char_of (y div 100 mod 10 + 48),
      char_of (y div 10 mod 10 + 48), char_of (y mod 10 + 48)]"
    using y by (simp add: numToString_4)
  have key: "getWeekKey yr wk =
     numToString y @ ''-W'' @ [char_of (w div 10 + 48), char_of (w mod 10 + 48)]"
    using y w by (simp add: getWeekKey_def intToString_def padStart2_week)
  have dy: "y div 1000 < 10" "y div 100 mod 10 < 10" "y div 10 mod 10 < 10" "y mod 10 < 10"
    using y by simp_all
  have dw: "w div 10 < 10" "w mod 10 < 10" using w by simp_all
  have pat: "weekKeyPattern (getWeekKey yr wk)"
    using dy dw by (simp add: key y4 isDigit_char_of)
  have t4: "take 4 (getWeekKey yr wk) = numToString y"
    by (simp add: key y4)
  have d6: "drop 6 (getWeekKey yr wk) = [char_of (w div 10 + 48), char_of (w mod 10 + 48)]"
    by (simp add: key y4)
  have len: "length (getWeekKey yr wk) = 8" by (simp add: key y4)
  have py: "parseInt10 (take 4 (getWeekKey yr wk)) = Some yr"
    unfolding t4 by (simp add: parseInt10_numToString y(3))
  have pw: "parseInt10 (drop 6 (getWeekKey yr wk)) = Some wk"
    unfolding d6 using w(2) by (simp add: parseInt10_week w(3))
  have rt: "parseWeekKey (getWeekKey yr wk) = Inr (Some yr, Some wk)"
    unfolding parseWeekKey_def using pat py pw by simp
  have fail: "\<forall>s. \<not> weekKeyPattern s \<longrightarrow> parseWeekKey s = Inl FormatError"
    by (simp add: parseWeekKey_def)
  from rt key len fail show ?thesis by (simp add: y_def w_def)
qed

theorem parseWeekKey_getWeekKey_witness:
  "parseWeekKey (getWeekKey 2026 5) = Inr (Some 2026, Some 5) \<and> getWeekKey 2026 5 = ''2026-W05''
   \<and> parseWeekKey ''2026-W5'' = Inl FormatError"
proof -
  have k: "getWeekKey 2026 5 = ''2026-W05''" by code_simp
  have p: "\<not> weekKeyPattern ''2026-W5''" by simp
  have c: "parseWeekKey (getWeekKey 2026 5) = Inr (Some 2026, Some 5)"
    by (rule conjunct1 [OF parseWeekKey_getWeekKey]) simp_all
  show ?thesis using c k p by (simp add: parseWeekKey_def)
qed

section \<open>Properties of the week data\<close>

subsection \<open>The association list as a map\<close>

lemma Map_get_None_iff: "Map_get k m = None \<longleftrightarrow> \<not> Map_has k m"
  by (simp add: Map_get_def Map_has_def map_of_eq_None_iff)

lemma Map_get_Map_set_same: "Map_get k (Map_set k v m) = Some v"
proof (cases "Map_has k m")
  case True
  then have "map_of (map (\<lambda>p. if fst p = k then (k, v) else p) m) k = Some v"
    by (induction m) (auto simp: Map_has_def)
  with True show ?thesis by (simp add: Map_get_def Map_set_def)
next
  case False
  then have "map_of m k = None" by (simp add: Map_has_def map_of_eq_None_iff)
  with False show ?thesis by (simp add: Map_get_def Map_set_def map_add_def)
qed

lemma Map_get_Map_set_other: "k' \<noteq> k \<Longrightarrow> Map_get k' (Map_set k v m) = Map_get k' m"
proof -
  assume ne: "k' \<noteq> k"
  have a: "map_of (map (\<lambda>p. if fst p = k then (k, v) else p) m) k' = map_of m k'"
    using ne by (induction m) auto
  have b: "map_of (m @ [(k, v)]) k' = map_of m k'"
    using ne by (simp add: map_add_def split: option.splits)
  show ?thesis by (simp add: Map_get_def Map_set_def a b del: map_of_append)
qed

lemma map_fst_Map_set:
  "map fst (Map_set k v m) = (if Map_has k m then map fst m else map fst m @ [k])"
proof -
  have "map fst (map (\<lambda>p. if fst p = k then (k, v) else p) m) = map fst m"
    by (induction m) auto
  then show ?thesis by (simp add: Map_set_def)
qed

lemma keys_Map_set: "set (map fst (Map_set k v m)) = insert k (set (map fst m))"
  by (auto simp: map_fst_Map_set Map_has_def)

lemma Map_has_Map_set: "Map_has k' (Map_set k v m) \<longleftrightarrow> k' = k \<or> Map_has k' m"
  unfolding Map_has_def keys_Map_set by simp

lemma Map_set_Map_set: "Map_set k v (Map_set k v' m) = Map_set k v m"
proof (cases "Map_has k m")
  case True
  then show ?thesis
    by (simp add: Map_set_def Map_has_def image_iff comp_def) (auto intro!: map_cong)
next
  case False
  then have "map (\<lambda>p. if fst p = k then (k, v) else p) m = m"
    by (induction m) (auto simp: Map_has_def)
  with False show ?thesis
    by (simp add: Map_set_def Map_has_def)
qed

lemma list_all_Map_set: "list_all P m \<Longrightarrow> P (k, v) \<Longrightarrow> list_all P (Map_set k v m)"
  by (auto simp: Map_set_def list_all_iff)

subsection \<open>What \<open>addEntry\<close> stores\<close>

lemma addEntry_stored:
  "snd (addEntry k arg wd) =
     (if isSpecial (asTimeEntry arg) \<and> isSmart (asTimeEntry arg) \<and> isFriday (parseDateISO k)
      then (asTimeEntry arg)\<lparr>hours := Some SMART_HOURS_FRIDAY\<rparr> else asTimeEntry arg)"
  by (simp add: addEntry_def Let_def)

lemma type_addEntry_stored: "type (snd (addEntry k arg wd)) = type (asTimeEntry arg)"
  by (simp add: addEntry_stored)

lemma getEntriesForDate_absent: "\<not> Map_has k (entries wd) \<Longrightarrow> getEntriesForDate k wd = []"
  by (simp add: getEntriesForDate_def Map_get_None_iff [symmetric])

lemma addEntry_entries:
  "entries (fst (addEntry k arg wd)) =
     Map_set k ((if isSpecial (asTimeEntry arg) then [] else getEntriesForDate k wd)
                @ [snd (addEntry k arg wd)]) (entries wd)"
proof (cases "Map_has k (entries wd)")
  case True
  then show ?thesis
    by (simp add: addEntry_def Let_def clearDay_def Map_has_Map_set getEntriesForDate_def
        Map_get_Map_set_same Map_set_Map_set)
next
  case False
  then have "getEntriesForDate k wd = []" by (rule getEntriesForDate_absent)
  with False show ?thesis
    by (simp add: addEntry_def Let_def clearDay_def Map_has_Map_set getEntriesForDate_def
        Map_get_Map_set_same Map_set_Map_set)
qed

lemma addEntry_same_date:
  "getEntriesForDate k (fst (addEntry k arg wd)) =
     (if isSpecial (asTimeEntry arg) then [] else getEntriesForDate k wd)
     @ [snd (addEntry k arg wd)]"
  by (simp add: getEntriesForDate_def [of k "fst (addEntry k arg wd)"] addEntry_entries
      Map_get_Map_set_same)

lemma addEntry_other_date:
  "k' \<noteq> k \<Longrightarrow> getEntriesForDate k' (fst (addEntry k arg wd)) = getEntriesForDate k' wd"
  by (simp add: getEntriesForDate_def addEntry_entries Map_get_Map_set_other)


lemma foldl_addEntry_other_date:
  "k' \<noteq> k \<Longrightarrow>
   getEntriesForDate k' (foldl (\<lambda>w entryData. fst (addEntry k (Plain entryData) w)) wd es)
     = getEntriesForDate k' wd"
  by (induction es arbitrary: wd) (simp_all add: addEntry_other_date)

subsection \<open>Evaluating week 6 of 2026\<close>

lemma numToString_step:
  "10 \<le> n \<Longrightarrow> numToString n = numToString (n div 10) @ [char_of (n mod 10 + 48)]"
  by (subst numToString.simps) simp

lemma char_of_digits:
  "char_of (48::nat) = CHR ''0''" "char_of (49::nat) = CHR ''1''" "char_of (50::nat) = CHR ''2''"
  "char_of (51::nat) = CHR ''3''" "char_of (52::nat) = CHR ''4''" "char_of (53::nat) = CHR ''5''"
  "char_of (54::nat) = CHR ''6''" "char_of (55::nat) = CHR ''7''" "char_of (56::nat) = CHR ''8''"
  "char_of (57::nat) = CHR ''9''"
  by code_simp+

lemmas eval_strings =
  intToString_def numToString_1 numToString_step padStart2_def char_of_digits

lemma getWorkWeekDates_2026_6:
  "getWorkWeekDates 2026 6 = [Some 20486, Some 20487, Some 20488, Some 20489, Some 20490]"
  by (simp add: getWorkWeekDates_def getWeekStartDate_def newDate_def daysFromCivil_def
      timeClip_def Let_def upt_rec)

lemma civilFromDays_2026_6:
  "map civilFromDays [20486, 20487, 20488, 20489, 20490]
     = [(2026, 2, 2), (2026, 2, 3), (2026, 2, 4), (2026, 2, 5), (2026, 2, 6)]"
  by code_simp

lemma formatDateISO_2026_6:
  "map formatDateISO [20486, 20487, 20488, 20489, 20490]
     = [''2026-02-02'', ''2026-02-03'', ''2026-02-04'', ''2026-02-05'', ''2026-02-06'']"
  using civilFromDays_2026_6 by (simp add: formatDateISO_def eval_strings)

lemma initializeWorkDays_2026_6:
  "initializeWorkDays \<lparr>year = 2026, week = 6, weekKey = ''2026-W06'', entries = []\<rparr> =
     \<lparr>year = 2026, week = 6, weekKey = ''2026-W06'',
      entries = [(''2026-02-02'', []), (''2026-02-03'', []), (''2026-02-04'', []),
                 (''2026-02-05'', []), (''2026-02-06'', [])]\<rparr>"
  using formatDateISO_2026_6
  by (simp add: initializeWorkDays_def getWorkWeekDates_2026_6 Map_has_def Map_set_def)

lemma getWeekKey_2026_6: "getWeekKey 2026 6 = ''2026-W06''"
  by (simp add: getWeekKey_def eval_strings)

lemma WeekData_new_2026_6:
  "WeekData_new 2026 6 data =
     (if length data > 0 then loadFromJSON data else id)
     \<lparr>year = 2026, week = 6, weekKey = ''2026-W06'',
      entries = [(''2026-02-02'', []), (''2026-02-03'', []), (''2026-02-04'', []),
                 (''2026-02-05'', []), (''2026-02-06'', [])]\<rparr>"
  by (simp add: WeekData_new_def getWeekKey_2026_6 initializeWorkDays_2026_6)

subsection \<open>Remote work on a Friday\<close>

text \<open>
  C6. For every remote-work entry added with \<open>addEntry\<close> to a date that is a Friday,
  the stored entry's hours are 6 whatever hours were supplied, and the date then holds
  that entry alone: the entries that were there are cleared before it is appended.
\<close>

theorem addEntry_smart_friday:
  assumes "isSmart (asTimeEntry arg)" and "isFriday (parseDateISO dateKey)"
  shows "hours (snd (addEntry dateKey arg wd)) = Some 6
         \<and> getEntriesForDate dateKey (fst (addEntry dateKey arg wd)) = [snd (addEntry dateKey arg wd)]"
proof -
  have sp: "isSpecial (asTimeEntry arg)"
    using assms(1) by (simp add: isSmart_def isSpecial_def isSpecialType_def SPECIAL_TYPES_def)
  have h: "hours (snd (addEntry dateKey arg wd)) = Some 6"
    using assms sp by (simp add: addEntry_stored SMART_HOURS_FRIDAY_def)
  have l: "getEntriesForDate dateKey (fst (addEntry dateKey arg wd)) = [snd (addEntry dateKey arg wd)]"
    using sp by (simp add: addEntry_same_date)
  from h l show ?thesis by simp
qed

theorem addEntry_smart_friday_witness:
  "isSmart (asTimeEntry (Plain \<lparr>type = ''smart'', time = None, hours = Some (15 / 2)\<rparr>))
   \<and> isFriday (parseDateISO ''2026-02-06'')
   \<and> getEntriesForDate ''2026-02-06''
        (fst (addEntry ''2026-02-06''
                (Plain \<lparr>type = ''smart'', time = None, hours = Some (15 / 2)\<rparr>)
                (fst (addEntry ''2026-02-06''
                        (Plain \<lparr>type = ''entrata'', time = Some ''08:00'', hours = None\<rparr>)
                        (WeekData_new 2026 6 [])))))
       = [\<lparr>type = ''smart'', time = None, hours = Some 6\<rparr>]"
proof -
  have s: "isSmart (asTimeEntry (Plain \<lparr>type = ''smart'', time = None, hours = Some (15 / 2)\<rparr>))"
    by (simp add: isSmart_def asTimeEntry_def TimeEntry_new_def)
  have f: "isFriday (parseDateISO ''2026-02-06'')" by code_simp
  have t: "snd (addEntry ''2026-02-06''
                  (Plain \<lparr>type = ''smart'', time = None, hours = Some (15 / 2)\<rparr>) w)
           = \<lparr>type = ''smart'', time = None, hours = Some 6\<rparr>" for w
    using f by (simp add: addEntry_stored asTimeEntry_def TimeEntry_new_def isSpecial_def
        isSmart_def isSpecialType_def SPECIAL_TYPES_def requiresTime_def
        TIME_REQUIRED_TYPES_def SMART_HOURS_FRIDAY_def)
  show ?thesis
    using s f addEntry_smart_friday [OF s f] by (simp add: t)
qed

subsection \<open>Dates outside the week\<close>




















subsection \<open>The exclusivity invariant\<close>

lemma isClock_not_isSpecial: "isClock e \<Longrightarrow> \<not> isSpecial e"
  by (auto simp: isClock_def isSpecial_def isSpecialType_def SPECIAL_TYPES_def)

lemma type_TimeEntry_new: "type (TimeEntry_new d) = type d"
  by (simp add: TimeEntry_new_def)

lemma type_update: "type (update e u) = (case upd_type u of None \<Rightarrow> type e | Some ty \<Rightarrow> ty)"
  by (simp add: update_def Let_def split: option.splits)

lemma dayInvariant_getEntriesForDate:
  "weekInvariant wd \<Longrightarrow> dayInvariant (getEntriesForDate k wd)"
proof (cases "Map_get k (entries wd)")
  case None
  then show ?thesis by (simp add: getEntriesForDate_def dayInvariant_def)
next
  case (Some es)
  assume inv: "weekInvariant wd"
  from Some have "(k, es) \<in> set (entries wd)" by (simp add: Map_get_def map_of_SomeD)
  with inv have "dayInvariant es" by (auto simp: weekInvariant_def list_all_iff)
  with Some show ?thesis by (simp add: getEntriesForDate_def)
qed

lemma weekInvariant_Map_set:
  "weekInvariant wd \<Longrightarrow> dayInvariant v \<Longrightarrow> weekInvariant (wd\<lparr>entries := Map_set k v (entries wd)\<rparr>)"
  by (simp add: weekInvariant_def list_all_Map_set)

lemma weekInvariant_entries_eq:
  "entries wd' = Map_set k v (entries wd) \<Longrightarrow> weekInvariant wd \<Longrightarrow> dayInvariant v \<Longrightarrow> weekInvariant wd'"
  by (simp add: weekInvariant_def list_all_Map_set)

lemma isSpecialDay_iff:
  "isSpecialDay k wd \<longleftrightarrow> length (getEntriesForDate k wd) = 1 \<and> isSpecial (getEntriesForDate k wd ! 0)"
  by (simp add: isSpecialDay_def getEntriesForDate_def split: option.splits)

lemma clock_only_day:
  "dayInvariant es \<Longrightarrow> \<not> (length es = 1 \<and> isSpecial (es ! 0)) \<Longrightarrow> list_all isClock es"
  by (auto simp: dayInvariant_def)

lemma addEntry_special_inv:
  assumes "weekInvariant wd" "isSpecial (asTimeEntry arg)"
  shows "weekInvariant (fst (addEntry k arg wd))"
proof -
  have s: "isSpecial (snd (addEntry k arg wd))"
    using assms(2) by (simp add: isSpecial_def type_addEntry_stored)
  have "dayInvariant [snd (addEntry k arg wd)]" using s by (simp add: dayInvariant_def)
  with assms show ?thesis
    using addEntry_entries [of k arg wd] by (simp add: weekInvariant_entries_eq)
qed

lemma addEntry_clock_inv:
  assumes "weekInvariant wd" "isClock (asTimeEntry arg)" "list_all isClock (getEntriesForDate k wd)"
  shows "weekInvariant (fst (addEntry k arg wd))
         \<and> list_all isClock (getEntriesForDate k (fst (addEntry k arg wd)))"
proof -
  have c: "isClock (snd (addEntry k arg wd))"
    using assms(2) by (simp add: isClock_def type_addEntry_stored)
  have ns: "\<not> isSpecial (asTimeEntry arg)" using assms(2) by (rule isClock_not_isSpecial)
  have l: "list_all isClock (getEntriesForDate k wd @ [snd (addEntry k arg wd)])"
    using assms(3) c by simp
  then have "dayInvariant (getEntriesForDate k wd @ [snd (addEntry k arg wd)])"
    by (simp add: dayInvariant_def)
  with assms(1) ns have "weekInvariant (fst (addEntry k arg wd))"
    using addEntry_entries [of k arg wd] by (simp add: weekInvariant_entries_eq)
  with l ns show ?thesis by (simp add: addEntry_same_date)
qed

lemma clearDay_inv: "weekInvariant wd \<Longrightarrow> weekInvariant (clearDay k wd)"
  by (simp add: clearDay_def weekInvariant_Map_set dayInvariant_def)

lemma dayInvariant_delete:
  "dayInvariant es \<Longrightarrow> i < length es \<Longrightarrow> dayInvariant (take i es @ drop (Suc i) es)"
proof -
  assume d: "dayInvariant es" and i: "i < length es"
  show ?thesis
  proof (cases "length es = 1 \<and> isSpecial (es ! 0)")
    case True
    with i show ?thesis by (simp add: dayInvariant_def)
  next
    case False
    with d have "list_all isClock es" by (rule clock_only_day)
    then have "list_all isClock (take i es @ drop (Suc i) es)"
      by (auto simp: list_all_iff dest: in_set_takeD in_set_dropD)
    then show ?thesis by (simp add: dayInvariant_def)
  qed
qed

lemma deleteEntry_inv: "weekInvariant wd \<Longrightarrow> weekInvariant (fst (deleteEntry k i wd))"
proof (cases "Map_get k (entries wd)")
  case None
  assume "weekInvariant wd"
  with None show ?thesis by (simp add: deleteEntry_def)
next
  case (Some es)
  assume inv: "weekInvariant wd"
  have d: "dayInvariant es"
    using dayInvariant_getEntriesForDate [OF inv, of k] Some by (simp add: getEntriesForDate_def)
  show ?thesis
  proof (cases "i < 0 \<or> i \<ge> int (length es)")
    case True
    with Some inv show ?thesis by (simp add: deleteEntry_def)
  next
    case False
    then have "nat i < length es" by linarith
    with d have "dayInvariant (take (nat i) es @ drop (Suc (nat i)) es)" by (rule dayInvariant_delete)
    with False Some inv show ?thesis
      by (simp add: deleteEntry_def weekInvariant_Map_set)
  qed
qed


lemma dayInvariant_update:
  assumes d: "dayInvariant es" and i: "i < length es" and sp: "isSpecial (es ! i) \<or> \<not> isSpecialType ty'"
    and u: "type e' = ty'" and v: "ty' = type (es ! i) \<or> ty' \<in> set VALID_ENTRY_TYPES"
  shows "dayInvariant (es[i := e'])"
proof (cases "length es = 1 \<and> isSpecial (es ! 0)")
  case True
  with i have i0: "i = 0" by simp
  from True obtain x where es: "es = [x]" by (cases es) auto
  have "isSpecial e' \<or> isClock e'"
    using v u True i0
    by (auto simp: VALID_ENTRY_TYPES_def isSpecial_def isClock_def isSpecialType_def SPECIAL_TYPES_def)
  then show ?thesis using es i0 by (auto simp: dayInvariant_def)
next
  case False
  with d have c: "list_all isClock es" by (rule clock_only_day)
  with i have ci: "isClock (es ! i)" by (simp add: list_all_length)
  then have "\<not> isSpecial (es ! i)" by (rule isClock_not_isSpecial)
  with sp have ns: "\<not> isSpecialType ty'" by simp
  have "isClock e'"
    using v u ns ci
    by (auto simp: VALID_ENTRY_TYPES_def isClock_def isSpecialType_def SPECIAL_TYPES_def)
  with c have "list_all isClock (es[i := e'])"
    by (auto simp: list_all_iff dest: set_update_subset_insert [THEN subsetD])
  then show ?thesis by (simp add: dayInvariant_def)
qed

lemma updateEntry_inv:
  assumes inv: "weekInvariant wd"
    and ty: "upd_type u = None \<or> the (upd_type u) \<in> set VALID_ENTRY_TYPES"
  shows "weekInvariant (fst (updateEntry k i u wd))"
proof (cases "Map_get k (entries wd)")
  case None
  with inv show ?thesis by (simp add: updateEntry_def)
next
  case (Some es)
  have d: "dayInvariant es"
    using dayInvariant_getEntriesForDate [OF inv, of k] Some by (simp add: getEntriesForDate_def)
  show ?thesis
  proof (cases "i < 0 \<or> i \<ge> int (length es)")
    case True
    with Some inv show ?thesis by (simp add: updateEntry_def)
  next
    case False
    then have il: "nat i < length es" by linarith
    define entry where "entry = es ! nat i"
    define toSpecial where "toSpecial =
      ((case upd_type u of None \<Rightarrow> False
        | Some ty \<Rightarrow> ty \<noteq> [] \<and> ty \<in> set [''smart'', ''assente'']) \<and> \<not> isSpecial entry)"
    show ?thesis
    proof (cases toSpecial)
      case True
      then obtain ty where t: "upd_type u = Some ty" "ty \<in> set [''smart'', ''assente'']"
        by (auto simp: toSpecial_def split: option.splits)
      then have "isSpecial (update entry u)"
        by (auto simp: isSpecial_def type_update isSpecialType_def SPECIAL_TYPES_def)
      then have di: "dayInvariant [update entry u]" by (simp add: dayInvariant_def)
      have g: "getEntriesForDate k (clearDay k wd) = []"
        using Some
        by (simp add: clearDay_def getEntriesForDate_def Map_get_Map_set_same
            Map_get_None_iff [symmetric])
      have "weekInvariant ((clearDay k wd)\<lparr>entries :=
               Map_set k [update entry u] (entries (clearDay k wd))\<rparr>)"
        using clearDay_inv [OF inv] di by (rule weekInvariant_Map_set)
      with True Some False show ?thesis
        by (simp add: updateEntry_def toSpecial_def entry_def Let_def g)
    next
      case nsp: False
      have sp: "isSpecial entry \<or> \<not> isSpecialType (type (update entry u))"
        using nsp
        by (auto simp: toSpecial_def type_update isSpecial_def isSpecialType_def SPECIAL_TYPES_def
            split: option.splits)
      have v: "type (update entry u) = type entry \<or> type (update entry u) \<in> set VALID_ENTRY_TYPES"
        using ty by (auto simp: type_update split: option.splits)
      have "dayInvariant (es[nat i := update entry u])"
        using d il sp refl v unfolding entry_def by (rule dayInvariant_update)
      then have "weekInvariant (wd\<lparr>entries := Map_set k (es[nat i := update entry u]) (entries wd)\<rparr>)"
        using inv by (simp add: weekInvariant_Map_set)
      with nsp Some False show ?thesis
        by (auto simp: updateEntry_def toSpecial_def entry_def Let_def)
    qed
  qed
qed

lemma asTimeEntry_Plain_type: "type (asTimeEntry (Plain d)) = type d"
  by (simp add: asTimeEntry_def type_TimeEntry_new)

lemma foldl_addEntry_clock_inv:
  "weekInvariant wd \<Longrightarrow> list_all isClock (getEntriesForDate k wd) \<Longrightarrow> list_all isClock es \<Longrightarrow>
   weekInvariant (foldl (\<lambda>w entryData. fst (addEntry k (Plain entryData) w)) wd es)"
proof (induction es arbitrary: wd)
  case Nil
  then show ?case by simp
next
  case (Cons d es)
  have c: "isClock (asTimeEntry (Plain d))"
    using Cons.prems(3) by (simp add: isClock_def asTimeEntry_Plain_type)
  note step = addEntry_clock_inv [OF Cons.prems(1) c Cons.prems(2)]
  show ?case
    using Cons.IH [of "fst (addEntry k (Plain d) wd)"] step Cons.prems(3) by simp
qed

lemma loadDay_inv:
  assumes "weekInvariant wd" "list_all isClock (getEntriesForDate k wd)" "dayInvariant es"
  shows "weekInvariant (foldl (\<lambda>w entryData. fst (addEntry k (Plain entryData) w)) wd es)"
proof (cases "length es = 1 \<and> isSpecial (es ! 0)")
  case True
  then obtain s where es: "es = [s]" by (cases es) auto
  with True have "isSpecial (asTimeEntry (Plain s))"
    by (simp add: isSpecial_def asTimeEntry_Plain_type)
  with assms(1) show ?thesis by (simp add: es addEntry_special_inv)
next
  case False
  with assms(3) have "list_all isClock es" by (rule clock_only_day)
  with assms(1,2) show ?thesis by (rule foldl_addEntry_clock_inv)
qed



lemma loadFromJSON_inv:
  "weekInvariant wd \<Longrightarrow> distinct (map fst data) \<Longrightarrow>
   list_all (\<lambda>p. dayValueInvariant (snd p)) data \<Longrightarrow>
   list_all (\<lambda>p. list_all isClock (getEntriesForDate (fst p) wd)) data \<Longrightarrow>
   weekInvariant (loadFromJSON data wd)"
proof (induction data wd rule: loadFromJSON.induct)
  case (1 wd)
  then show ?case by simp
next
  case (2 dateKey rest wd)
  then show ?case by simp
next
  case (3 dateKey es rest wd)
  let ?wd' = "foldl (\<lambda>w entryData. fst (addEntry dateKey (Plain entryData) w)) wd es"
  have a: "weekInvariant ?wd'"
    using 3(2,4,5) by (simp add: loadDay_inv dayValueInvariant_def)
  have b: "list_all (\<lambda>p. list_all isClock (getEntriesForDate (fst p) ?wd')) rest"
  proof -
    have "getEntriesForDate (fst p) ?wd' = getEntriesForDate (fst p) wd" if "p \<in> set rest" for p
    proof -
      from that 3(3) have "fst p \<noteq> dateKey" by auto
      then show ?thesis by (rule foldl_addEntry_other_date)
    qed
    with 3(5) show ?thesis by (simp add: list_all_iff)
  qed
  from 3(1) [OF a] 3(3,4) b show ?case by simp
qed

lemma not_special_day_clock:
  "weekInvariant wd \<Longrightarrow> \<not> isSpecialDay k wd \<Longrightarrow> list_all isClock (getEntriesForDate k wd)"
  using dayInvariant_getEntriesForDate [of wd k] clock_only_day [of "getEntriesForDate k wd"]
  by (simp add: isSpecialDay_iff)

text \<open>
  C2, amended. From a week that keeps the invariant (every date holds no entry, or one
  special entry, or clock entries only): \<open>addEntry\<close> of a special entry keeps it and
  leaves at that date exactly the entry it stored, a special one; \<open>addEntry\<close> of a
  clock entry keeps it when the date is not a special day; \<open>updateEntry\<close> keeps it
  when the new type, if one is given, is one of the four entry types; \<open>deleteEntry\<close>
  and \<open>clearDay\<close> keep it; \<open>loadFromJSON\<close> keeps it when the dates loaded are
  pairwise different, each loaded list keeps the invariant of a day, and none of the
  dates loaded is a special day of the week.
\<close>

theorem weekInvariant_preserved:
  assumes inv: "weekInvariant wd"
  shows "(isSpecial (asTimeEntry arg) \<longrightarrow>
            weekInvariant (fst (addEntry k arg wd))
            \<and> getEntriesForDate k (fst (addEntry k arg wd)) = [snd (addEntry k arg wd)]
            \<and> isSpecial (snd (addEntry k arg wd)))
         \<and> (isClock (asTimeEntry arg) \<and> \<not> isSpecialDay k wd \<longrightarrow>
            weekInvariant (fst (addEntry k arg wd)))
         \<and> (upd_type u = None \<or> the (upd_type u) \<in> set VALID_ENTRY_TYPES \<longrightarrow>
            weekInvariant (fst (updateEntry k i u wd)))
         \<and> weekInvariant (fst (deleteEntry k i wd))
         \<and> weekInvariant (clearDay k wd)
         \<and> (distinct (map fst data) \<and> list_all (\<lambda>p. dayValueInvariant (snd p)) data
              \<and> list_all (\<lambda>p. \<not> isSpecialDay (fst p) wd) data \<longrightarrow>
            weekInvariant (loadFromJSON data wd))"
proof -
  have a: "weekInvariant (fst (addEntry k arg wd))
            \<and> getEntriesForDate k (fst (addEntry k arg wd)) = [snd (addEntry k arg wd)]
            \<and> isSpecial (snd (addEntry k arg wd))" if "isSpecial (asTimeEntry arg)"
    using that inv by (simp add: addEntry_special_inv addEntry_same_date isSpecial_def type_addEntry_stored)
  have b: "weekInvariant (fst (addEntry k arg wd))"
    if "isClock (asTimeEntry arg)" "\<not> isSpecialDay k wd"
    using addEntry_clock_inv [OF inv that(1) not_special_day_clock [OF inv that(2)]] by simp
  have c: "weekInvariant (fst (updateEntry k i u wd))"
    if "upd_type u = None \<or> the (upd_type u) \<in> set VALID_ENTRY_TYPES"
    using inv that by (rule updateEntry_inv)
  have d: "weekInvariant (fst (deleteEntry k i wd))" using inv by (rule deleteEntry_inv)
  have e: "weekInvariant (clearDay k wd)" using inv by (rule clearDay_inv)
  have f: "weekInvariant (loadFromJSON data wd)"
    if "distinct (map fst data)" "list_all (\<lambda>p. dayValueInvariant (snd p)) data"
       "list_all (\<lambda>p. \<not> isSpecialDay (fst p) wd) data"
  proof -
    have "list_all (\<lambda>p. list_all isClock (getEntriesForDate (fst p) wd)) data"
      using that(3) not_special_day_clock [OF inv] by (auto simp: list_all_iff)
    with inv that(1,2) show ?thesis by (rule loadFromJSON_inv)
  qed
  from a b c d e f show ?thesis by blast
qed

text \<open>
  C2, as stated, fails: \<open>addEntry\<close> clears the date for a special entry only. In
  week 6 of 2026, a clock-in added to Monday 2026-02-02 after a remote-work entry is
  appended to it, and the date holds a special entry and a clock entry together.
\<close>

theorem addEntry_clock_after_special_counterexample:
  "weekInvariant (fst (addEntry ''2026-02-02''
        (Plain \<lparr>type = ''smart'', time = None, hours = Some (15 / 2)\<rparr>) (WeekData_new 2026 6 [])))
   \<and> getEntriesForDate ''2026-02-02''
       (fst (addEntry ''2026-02-02''
          (Plain \<lparr>type = ''entrata'', time = Some ''08:00'', hours = None\<rparr>)
          (fst (addEntry ''2026-02-02''
             (Plain \<lparr>type = ''smart'', time = None, hours = Some (15 / 2)\<rparr>)
             (WeekData_new 2026 6 [])))))
       = [\<lparr>type = ''smart'', time = None, hours = Some (15 / 2)\<rparr>,
          \<lparr>type = ''entrata'', time = Some ''08:00'', hours = None\<rparr>]
   \<and> \<not> weekInvariant (fst (addEntry ''2026-02-02''
          (Plain \<lparr>type = ''entrata'', time = Some ''08:00'', hours = None\<rparr>)
          (fst (addEntry ''2026-02-02''
             (Plain \<lparr>type = ''smart'', time = None, hours = Some (15 / 2)\<rparr>)
             (WeekData_new 2026 6 [])))))"
  unfolding WeekData_new_2026_6 by code_simp

theorem weekInvariant_preserved_witness:
  "weekInvariant (WeekData_new 2026 6 [])
   \<and> isClock (asTimeEntry (Plain \<lparr>type = ''entrata'', time = Some ''08:00'', hours = None\<rparr>))
   \<and> \<not> isSpecialDay ''2026-02-02'' (WeekData_new 2026 6 [])
   \<and> weekInvariant (fst (addEntry ''2026-02-02''
         (Plain \<lparr>type = ''entrata'', time = Some ''08:00'', hours = None\<rparr>)
         (WeekData_new 2026 6 [])))
   \<and> isSpecial (asTimeEntry (Plain \<lparr>type = ''smart'', time = None, hours = Some (15 / 2)\<rparr>))
   \<and> getEntriesForDate ''2026-02-02''
        (fst (addEntry ''2026-02-02''
           (Plain \<lparr>type = ''smart'', time = None, hours = Some (15 / 2)\<rparr>)
           (fst (addEntry ''2026-02-02''
              (Plain \<lparr>type = ''entrata'', time = Some ''08:00'', hours = None\<rparr>)
              (WeekData_new 2026 6 [])))))
       = [\<lparr>type = ''smart'', time = None, hours = Some (15 / 2)\<rparr>]
   \<and> weekInvariant
        (fst (addEntry ''2026-02-02''
           (Plain \<lparr>type = ''smart'', time = None, hours = Some (15 / 2)\<rparr>)
           (fst (addEntry ''2026-02-02''
              (Plain \<lparr>type = ''entrata'', time = Some ''08:00'', hours = None\<rparr>)
              (WeekData_new 2026 6 [])))))
   \<and> weekInvariant
        (fst (updateEntry ''2026-02-02'' 0
           \<lparr>upd_type = Some ''uscita'', upd_time = Some (Some ''17:00''), upd_hours = None\<rparr>
           (fst (addEntry ''2026-02-02''
              (Plain \<lparr>type = ''entrata'', time = Some ''08:00'', hours = None\<rparr>)
              (WeekData_new 2026 6 [])))))
   \<and> weekInvariant
        (loadFromJSON
           [(''2026-02-02'', Entries [\<lparr>type = ''smart'', time = None, hours = Some (15 / 2)\<rparr>])]
           (WeekData_new 2026 6 []))"
proof -
  define ci where "ci = \<lparr>type = ''entrata'', time = Some ''08:00'', hours = None\<rparr>"
  define sm where "sm = \<lparr>type = ''smart'', time = None, hours = Some (15 / 2 :: rat)\<rparr>"
  define u where
    "u = \<lparr>upd_type = Some ''uscita'', upd_time = Some (Some ''17:00''), upd_hours = None\<rparr>"
  define W0 where "W0 = WeekData_new 2026 6 []"
  define W1 where "W1 = fst (addEntry ''2026-02-02'' (Plain ci) W0)"
  define data where "data = [(''2026-02-02'', Entries [sm])]"
  have i0: "weekInvariant W0"
    by (simp add: W0_def WeekData_new_2026_6 weekInvariant_def dayInvariant_def)
  have c: "isClock (asTimeEntry (Plain ci))"
    by (simp add: ci_def isClock_def asTimeEntry_Plain_type)
  have n0: "\<not> isSpecialDay ''2026-02-02'' W0"
    by (simp add: W0_def WeekData_new_2026_6 isSpecialDay_def Map_get_def)
  have s: "isSpecial (asTimeEntry (Plain sm))"
    by (simp add: sm_def isSpecial_def asTimeEntry_Plain_type isSpecialType_def SPECIAL_TYPES_def)
  have uo: "upd_type u = None \<or> the (upd_type u) \<in> set VALID_ENTRY_TYPES"
    by (simp add: u_def VALID_ENTRY_TYPES_def)
  have d: "distinct (map fst data) \<and> list_all (\<lambda>p. dayValueInvariant (snd p)) data
           \<and> list_all (\<lambda>p. \<not> isSpecialDay (fst p) W0) data"
    using n0 by (simp add: data_def dayValueInvariant_def dayInvariant_def sm_def isSpecial_def
        isSpecialType_def SPECIAL_TYPES_def)
  note T0 = weekInvariant_preserved [OF i0, of "Plain ci" "''2026-02-02''" u 0 data]
  from T0 c n0 have i1: "weekInvariant W1" unfolding W1_def by blast
  from T0 d have l: "weekInvariant (loadFromJSON data W0)" by blast
  note T1 = weekInvariant_preserved [OF i1, of "Plain sm" "''2026-02-02''" u 0 data]
  from T1 s have r: "weekInvariant (fst (addEntry ''2026-02-02'' (Plain sm) W1))
      \<and> getEntriesForDate ''2026-02-02'' (fst (addEntry ''2026-02-02'' (Plain sm) W1))
          = [snd (addEntry ''2026-02-02'' (Plain sm) W1)]" by blast
  from T1 uo have up: "weekInvariant (fst (updateEntry ''2026-02-02'' 0 u W1))" by blast
  have nf: "\<not> isFriday (parseDateISO ''2026-02-02'')" by code_simp
  have st: "snd (addEntry ''2026-02-02'' (Plain sm) W1) = sm"
    using nf by (simp add: addEntry_stored asTimeEntry_def TimeEntry_new_def sm_def
        isSpecialType_def SPECIAL_TYPES_def requiresTime_def TIME_REQUIRED_TYPES_def)
  from i0 c n0 i1 s r up l show ?thesis
    unfolding st unfolding W1_def W0_def data_def ci_def sm_def u_def by blast
qed

section \<open>Properties of the entries\<close>

lemma isDigit_not_colon: "isDigit c \<Longrightarrow> c \<noteq> CHR '':''"
  by (auto simp: isDigit_def less_eq_char_def)

lemma minute_tens_isDigit: "CHR ''0'' \<le> c \<Longrightarrow> c \<le> CHR ''5'' \<Longrightarrow> isDigit c"
  by (auto simp: isDigit_def less_eq_char_def)

lemma hour_units_isDigit: "CHR ''0'' \<le> c \<Longrightarrow> c \<le> CHR ''3'' \<Longrightarrow> isDigit c"
  by (auto simp: isDigit_def less_eq_char_def)

lemma Number_digits: "list_all isDigit s \<Longrightarrow> \<exists>n. Number s = Some n"
  by (simp add: Number_def)

lemma timePattern_split:
  assumes "timePattern s"
  shows "\<exists>hs ms. splitStr CHR '':'' s = [hs, ms] \<and> list_all isDigit hs \<and> list_all isDigit ms"
  using assms
proof (cases s rule: timePattern.cases)
  case (1 h c m1 m2)
  with assms show ?thesis
    by (auto simp: isDigit_not_colon minute_tens_isDigit dest: isDigit_not_colon)
next
  case (2 h1 h2 c m1 m2)
  with assms show ?thesis
    by (auto simp: isDigit_not_colon minute_tens_isDigit hour_units_isDigit isDigit_def less_eq_char_def)
qed (use assms in auto)

lemma normalizeTime_Some_iff: "normalizeTime t \<noteq> None \<longleftrightarrow> validateTime t"
proof (cases "validateTime t")
  case False
  then show ?thesis by (simp add: normalizeTime_def)
next
  case True
  then obtain s where t: "t = Some s" and p: "timePattern s"
    by (auto simp: validateTime_def split: option.splits)
  from timePattern_split [OF p] obtain hs ms where
    sp: "splitStr CHR '':'' s = [hs, ms]" and d: "list_all isDigit hs" "list_all isDigit ms"
    by blast
  from d obtain hh mm where "Number hs = Some hh" "Number ms = Some mm"
    using Number_digits by blast
  with True t sp show ?thesis by (simp add: normalizeTime_def)
qed

lemma not_both_kinds: "\<not> (requiresTime ty \<and> isSpecialType ty)"
  by (auto simp: requiresTime_def isSpecialType_def TIME_REQUIRED_TYPES_def SPECIAL_TYPES_def)

text \<open>
  C3, amended. An entry built by the constructor has hours exactly when its type is
  special, and a time exactly when its type requires one and the time supplied is well
  formed; it never has both. \<open>update\<close> clears nothing: it stores the new type when
  one is given, overwrites the time only when a time is given and the resulting type
  requires one, overwrites the hours only when hours are given and the resulting type
  is special, and leaves the stored time and hours as they were otherwise. The
  serialized entry has a \<open>time\<close> key exactly when the type requires a time.
\<close>

theorem TimeEntry_fields:
  "(hours (TimeEntry_new d) \<noteq> None \<longleftrightarrow> isSpecialType (type d))
   \<and> (time (TimeEntry_new d) \<noteq> None \<longleftrightarrow> requiresTime (type d) \<and> validateTime (time d))
   \<and> \<not> (time (TimeEntry_new d) \<noteq> None \<and> hours (TimeEntry_new d) \<noteq> None)
   \<and> type (update e u) = (case upd_type u of None \<Rightarrow> type e | Some ty \<Rightarrow> ty)
   \<and> time (update e u) =
        (case upd_time u of
           None \<Rightarrow> time e
         | Some t \<Rightarrow> if requiresTime (type (update e u)) then normalizeTime t else time e)
   \<and> hours (update e u) =
        (case upd_hours u of
           None \<Rightarrow> hours e
         | Some h \<Rightarrow> if isSpecialType (type (update e u)) then h else hours e)
   \<and> (json_time (TimeEntry_toJSON e) \<noteq> None \<longleftrightarrow> requiresTime (type e))"
proof -
  have a: "hours (TimeEntry_new d) \<noteq> None \<longleftrightarrow> isSpecialType (type d)"
    by (simp add: TimeEntry_new_def split: option.splits)
  have b: "time (TimeEntry_new d) \<noteq> None \<longleftrightarrow> requiresTime (type d) \<and> validateTime (time d)"
    using normalizeTime_Some_iff [of "time d"] by (simp add: TimeEntry_new_def)
  have c: "\<not> (time (TimeEntry_new d) \<noteq> None \<and> hours (TimeEntry_new d) \<noteq> None)"
    using a b not_both_kinds [of "type d"] by blast
  have t: "type (update e u) = (case upd_type u of None \<Rightarrow> type e | Some ty \<Rightarrow> ty)"
    by (rule type_update)
  have f: "time (update e u) =
        (case upd_time u of
           None \<Rightarrow> time e
         | Some t \<Rightarrow> if requiresTime (type (update e u)) then normalizeTime t else time e)"
    by (simp add: update_def Let_def split: option.splits)
  have g: "hours (update e u) =
        (case upd_hours u of
           None \<Rightarrow> hours e
         | Some h \<Rightarrow> if isSpecialType (type (update e u)) then h else hours e)"
    by (simp add: update_def Let_def split: option.splits)
  have j: "json_time (TimeEntry_toJSON e) \<noteq> None \<longleftrightarrow> requiresTime (type e)"
    by (simp add: TimeEntry_toJSON_def)
  from a b c t f g j show ?thesis by blast
qed

text \<open>
  C3, as stated, fails: \<open>update\<close> never clears a field. A clock-in at 08:00 changed to
  remote work keeps its time and has no hours; a remote-work entry of 7.5 hours changed
  to a clock-in at 09:00 keeps its hours beside the new time.
\<close>

theorem update_keeps_fields_counterexample:
  "type (update (TimeEntry_new \<lparr>type = ''entrata'', time = Some ''08:00'', hours = None\<rparr>)
          \<lparr>upd_type = Some ''smart'', upd_time = None, upd_hours = None\<rparr>) = ''smart''
   \<and> time (update (TimeEntry_new \<lparr>type = ''entrata'', time = Some ''08:00'', hours = None\<rparr>)
          \<lparr>upd_type = Some ''smart'', upd_time = None, upd_hours = None\<rparr>) = Some ''08:00''
   \<and> hours (update (TimeEntry_new \<lparr>type = ''entrata'', time = Some ''08:00'', hours = None\<rparr>)
          \<lparr>upd_type = Some ''smart'', upd_time = None, upd_hours = None\<rparr>) = None
   \<and> type (update (TimeEntry_new \<lparr>type = ''smart'', time = None, hours = Some (15 / 2)\<rparr>)
          \<lparr>upd_type = Some ''entrata'', upd_time = Some (Some ''09:00''), upd_hours = None\<rparr>)
       = ''entrata''
   \<and> time (update (TimeEntry_new \<lparr>type = ''smart'', time = None, hours = Some (15 / 2)\<rparr>)
          \<lparr>upd_type = Some ''entrata'', upd_time = Some (Some ''09:00''), upd_hours = None\<rparr>)
       = Some ''09:00''
   \<and> hours (update (TimeEntry_new \<lparr>type = ''smart'', time = None, hours = Some (15 / 2)\<rparr>)
          \<lparr>upd_type = Some ''entrata'', upd_time = Some (Some ''09:00''), upd_hours = None\<rparr>)
       = Some (15 / 2)"
  by code_simp

theorem TimeEntry_fields_witness:
  "hours (TimeEntry_new \<lparr>type = ''smart'', time = Some ''08:00'', hours = None\<rparr>) = Some (15 / 2)
   \<and> time (TimeEntry_new \<lparr>type = ''smart'', time = Some ''08:00'', hours = None\<rparr>) = None
   \<and> time (TimeEntry_new \<lparr>type = ''entrata'', time = Some ''25:00'', hours = Some 3\<rparr>) = None
   \<and> hours (TimeEntry_new \<lparr>type = ''entrata'', time = Some ''25:00'', hours = Some 3\<rparr>) = None
   \<and> time (update \<lparr>type = ''entrata'', time = Some ''08:00'', hours = None\<rparr>
              \<lparr>upd_type = Some ''smart'', upd_time = Some (Some ''09:00''), upd_hours = Some (Some 6)\<rparr>)
       = Some ''08:00''
   \<and> hours (update \<lparr>type = ''entrata'', time = Some ''08:00'', hours = None\<rparr>
              \<lparr>upd_type = Some ''smart'', upd_time = Some (Some ''09:00''), upd_hours = Some (Some 6)\<rparr>)
       = Some 6"
proof -
  have v: "\<not> validateTime (Some ''25:00'')" by (simp add: validateTime_def less_eq_char_def)
  have s: "isSpecialType ''smart''" "\<not> requiresTime ''smart''" "requiresTime ''entrata''"
    "\<not> isSpecialType ''entrata''"
    by (simp_all add: isSpecialType_def requiresTime_def SPECIAL_TYPES_def TIME_REQUIRED_TYPES_def)
  have h: "hours (TimeEntry_new \<lparr>type = ''smart'', time = Some ''08:00'', hours = None\<rparr>) = Some (15 / 2)"
    using s by (simp add: TimeEntry_new_def getDefaultHours_def SMART_HOURS_DEFAULT_def)
  show ?thesis
    using v s h
      TimeEntry_fields [of "\<lparr>type = ''smart'', time = Some ''08:00'', hours = None\<rparr>"
        "\<lparr>type = ''entrata'', time = Some ''08:00'', hours = None\<rparr>"
        "\<lparr>upd_type = Some ''smart'', upd_time = Some (Some ''09:00''), upd_hours = Some (Some 6)\<rparr>"]
      TimeEntry_fields [of "\<lparr>type = ''entrata'', time = Some ''25:00'', hours = Some 3\<rparr>"
        "\<lparr>type = ''entrata'', time = Some ''08:00'', hours = None\<rparr>"
        "\<lparr>upd_type = Some ''smart'', upd_time = Some (Some ''09:00''), upd_hours = Some (Some 6)\<rparr>"]
    by simp
qed

section \<open>Properties of the storage\<close>

subsection \<open>Import in merge mode\<close>

lemma map_of_replace:
  assumes "k \<in> set (map fst obj)"
  shows "map_of (map (\<lambda>p. if fst p = k then (k, v) else p) obj) = (map_of obj)(k \<mapsto> v)"
proof
  fix x
  have a: "map_of (map (\<lambda>p. if fst p = k then (k, v) else p) obj) k = Some v"
    using assms by (induction obj) auto
  have b: "map_of (map (\<lambda>p. if fst p = k then (k, v) else p) obj) x = map_of obj x" if "x \<noteq> k"
    using that by (induction obj) auto
  show "map_of (map (\<lambda>p. if fst p = k then (k, v) else p) obj) x = ((map_of obj)(k \<mapsto> v)) x"
    using a b by (cases "x = k") simp_all
qed

lemma map_of_objectSet: "map_of (objectSet k v obj) = (map_of obj)(k \<mapsto> v)"
proof (cases "k \<in> set (map fst obj)")
  case True
  then show ?thesis by (simp add: objectSet_def map_of_replace del: set_map)
next
  case False
  then have "map_of obj k = None" by (simp add: map_of_eq_None_iff)
  with False show ?thesis
    by (auto simp: objectSet_def fun_eq_iff map_add_def split: option.splits)
qed

lemma keys_objectSet_absent:
  "k \<notin> set (map fst obj) \<Longrightarrow> map fst (objectSet k v obj) = map fst obj @ [k]"
  by (simp add: objectSet_def)

lemma absent_after_objectSet:
  "k \<notin> set (map fst rest) \<Longrightarrow>
   filter (\<lambda>q. map_of (objectSet k v c) (fst q) = None) rest
     = filter (\<lambda>q. map_of c (fst q) = None) rest"
  by (rule filter_cong) (auto simp: map_of_objectSet)

lemma present_after_objectSet:
  "k \<notin> set (map fst rest) \<Longrightarrow>
   filter (\<lambda>q. map_of (objectSet k v c) (fst q) \<noteq> None) rest
     = filter (\<lambda>q. map_of c (fst q) \<noteq> None) rest"
  by (rule filter_cong) (auto simp: map_of_objectSet)

lemma validateWeekKey_not_inherited:
  "validateWeekKey k \<Longrightarrow> k \<notin> set objectPrototypeNames"
  by (auto simp: validateWeekKey_def objectPrototypeNames_def)

lemma propertyTruthy_own:
  "k \<notin> set objectPrototypeNames \<Longrightarrow> propertyTruthy c k = (map_of c k \<noteq> None)"
  by (simp add: propertyTruthy_def)

lemma mergeLoop_present:
  "propertyTruthy c k \<Longrightarrow>
   mergeLoop ((k, v) # rest) (c, i, e) = mergeLoop rest (c, i, e + 1)"
  by simp

lemma mergeLoop_absent:
  "\<not> propertyTruthy c k \<Longrightarrow>
   mergeLoop ((k, v) # rest) (c, i, e) = mergeLoop rest (objectSet k v c, i + 1, e)"
  by simp

lemma mergeLoop_imported:
  "distinct (map fst payload) \<Longrightarrow> \<forall>p\<in>set payload. fst p \<notin> set objectPrototypeNames \<Longrightarrow>
   fst (snd (mergeLoop payload (c, i, e)))
     = i + length (filter (\<lambda>p. map_of c (fst p) = None) payload)"
proof (induction payload arbitrary: c i e)
  case Nil
  then show ?case by simp
next
  case (Cons p rest)
  obtain k v where p: "p = (k, v)" by (cases p)
  from Cons.prems p have d: "distinct (map fst rest)" and nk: "k \<notin> set (map fst rest)" by auto
  from Cons.prems(2) have n: "\<forall>p\<in>set rest. fst p \<notin> set objectPrototypeNames" by simp
  from Cons.prems(2) p have t: "propertyTruthy c k = (map_of c k \<noteq> None)"
    by (simp add: propertyTruthy_own)
  show ?case
  proof (cases "map_of c k = None")
    case True
    then have step: "mergeLoop (p # rest) (c, i, e) = mergeLoop rest (objectSet k v c, i + 1, e)"
      unfolding p using t by (simp only: mergeLoop_absent simp_thms)
    show ?thesis
      unfolding step
      using True p Cons.IH [OF d n, of "objectSet k v c" "i + 1" e]
        absent_after_objectSet [OF nk, of v c]
      by simp
  next
    case False
    then have step: "mergeLoop (p # rest) (c, i, e) = mergeLoop rest (c, i, e + 1)"
      unfolding p using t by (simp only: mergeLoop_present simp_thms)
    show ?thesis
      unfolding step using False p Cons.IH [OF d n, of c i "e + 1"] by simp
  qed
qed

lemma mergeLoop_existing:
  "distinct (map fst payload) \<Longrightarrow> \<forall>p\<in>set payload. fst p \<notin> set objectPrototypeNames \<Longrightarrow>
   snd (snd (mergeLoop payload (c, i, e)))
     = e + length (filter (\<lambda>p. map_of c (fst p) \<noteq> None) payload)"
proof (induction payload arbitrary: c i e)
  case Nil
  then show ?case by simp
next
  case (Cons p rest)
  obtain k v where p: "p = (k, v)" by (cases p)
  from Cons.prems p have d: "distinct (map fst rest)" and nk: "k \<notin> set (map fst rest)" by auto
  from Cons.prems(2) have n: "\<forall>p\<in>set rest. fst p \<notin> set objectPrototypeNames" by simp
  from Cons.prems(2) p have t: "propertyTruthy c k = (map_of c k \<noteq> None)"
    by (simp add: propertyTruthy_own)
  show ?case
  proof (cases "map_of c k = None")
    case True
    then have step: "mergeLoop (p # rest) (c, i, e) = mergeLoop rest (objectSet k v c, i + 1, e)"
      unfolding p using t by (simp only: mergeLoop_absent simp_thms)
    show ?thesis
      unfolding step
      using True p Cons.IH [OF d n, of "objectSet k v c" "i + 1" e]
        present_after_objectSet [OF nk, of v c]
      by (simp del: not_None_eq)
  next
    case False
    then have step: "mergeLoop (p # rest) (c, i, e) = mergeLoop rest (c, i, e + 1)"
      unfolding p using t by (simp only: mergeLoop_present simp_thms)
    show ?thesis
      unfolding step using False p Cons.IH [OF d n, of c i "e + 1"] by (simp del: not_None_eq)
  qed
qed

lemma mergeLoop_map:
  "distinct (map fst payload) \<Longrightarrow> \<forall>p\<in>set payload. fst p \<notin> set objectPrototypeNames \<Longrightarrow>
   map_of (fst (mergeLoop payload (c, i, e))) = map_of payload ++ map_of c"
proof (induction payload arbitrary: c i e)
  case Nil
  then show ?case by simp
next
  case (Cons p rest)
  obtain k v where p: "p = (k, v)" by (cases p)
  from Cons.prems p have d: "distinct (map fst rest)" and nk: "k \<notin> set (map fst rest)" by auto
  from Cons.prems(2) have n: "\<forall>p\<in>set rest. fst p \<notin> set objectPrototypeNames" by simp
  from Cons.prems(2) p have t: "propertyTruthy c k = (map_of c k \<noteq> None)"
    by (simp add: propertyTruthy_own)
  have kr: "map_of rest k = None" using nk by (simp add: map_of_eq_None_iff)
  show ?case
  proof (cases "map_of c k = None")
    case True
    then have step: "mergeLoop (p # rest) (c, i, e) = mergeLoop rest (objectSet k v c, i + 1, e)"
      unfolding p using t by (simp only: mergeLoop_absent simp_thms)
    have ih: "map_of (fst (mergeLoop rest (objectSet k v c, i + 1, e)))
                = map_of rest ++ map_of (objectSet k v c)"
      by (rule Cons.IH [OF d n])
    have m: "map_of rest ++ map_of (objectSet k v c) = map_of (p # rest) ++ map_of c"
      using True p kr by (auto simp: fun_eq_iff map_add_def map_of_objectSet split: option.splits)
    show ?thesis by (simp only: step ih m)
  next
    case False
    then have step: "mergeLoop (p # rest) (c, i, e) = mergeLoop rest (c, i, e + 1)"
      unfolding p using t by (simp only: mergeLoop_present simp_thms)
    have ih: "map_of (fst (mergeLoop rest (c, i, e + 1))) = map_of rest ++ map_of c"
      by (rule Cons.IH [OF d n])
    have m: "map_of rest ++ map_of c = map_of (p # rest) ++ map_of c"
      using False p by (auto simp: fun_eq_iff map_add_def split: option.splits)
    show ?thesis by (simp only: step ih m)
  qed
qed

lemma mergeLoop_distinct:
  "distinct (map fst c) \<Longrightarrow> distinct (map fst (fst (mergeLoop payload (c, i, e))))"
proof (induction payload arbitrary: c i e)
  case Nil
  then show ?case by simp
next
  case (Cons p rest)
  obtain k v where p: "p = (k, v)" by (cases p)
  show ?case
  proof (cases "propertyTruthy c k")
    case False
    then have "map_of c k = None" by (simp add: propertyTruthy_def)
    then have "k \<notin> set (map fst c)" by (simp add: map_of_eq_None_iff)
    with Cons.prems have "distinct (map fst (objectSet k v c))"
      by (simp add: keys_objectSet_absent)
    then show ?thesis
      unfolding p mergeLoop_absent [OF False] by (rule Cons.IH)
  next
    case True
    show ?thesis
      unfolding p mergeLoop_present [OF True] using Cons.prems by (rule Cons.IH)
  qed
qed

lemma mergeLoop_keys:
  "set (map fst (fst (mergeLoop payload (c, i, e)))) \<subseteq> set (map fst c) \<union> set (map fst payload)"
proof (induction payload arbitrary: c i e)
  case Nil
  then show ?case by simp
next
  case (Cons p rest)
  obtain k v where p: "p = (k, v)" by (cases p)
  show ?case
  proof (cases "propertyTruthy c k")
    case False
    then have "map_of c k = None" by (simp add: propertyTruthy_def)
    then have "k \<notin> set (map fst c)" by (simp add: map_of_eq_None_iff)
    then have ks: "map fst (objectSet k v c) = map fst c @ [k]"
      by (rule keys_objectSet_absent)
    show ?thesis
      unfolding p mergeLoop_absent [OF False]
      using Cons.IH [of "objectSet k v c" "i + 1" e] by (auto simp: ks)
  next
    case True
    show ?thesis
      unfolding p mergeLoop_present [OF True]
      using Cons.IH [of c i "e + 1"] by auto
  qed
qed

lemma map_of_insort_key:
  "k \<notin> set (map fst xs) \<Longrightarrow> map_of (insort_key fst (k, v) xs) = (map_of xs)(k \<mapsto> v)"
  by (induction xs) (auto simp: fun_eq_iff)

lemma map_of_filter_other: "map_of (filter (\<lambda>p. fst p \<noteq> k) xs) = (map_of xs)(k := None)"
  by (induction xs) (auto simp: fun_eq_iff)

lemma map_of_storePut: "map_of (storePut k v store) = (map_of store)(k \<mapsto> v)"
proof -
  have "k \<notin> set (map fst (filter (\<lambda>p. fst p \<noteq> k) store))" by auto
  then show ?thesis
    unfolding storePut_def by (simp add: map_of_insort_key map_of_filter_other del: set_map)
qed

lemma map_of_foldl_storePut:
  "distinct (map fst d) \<Longrightarrow>
   map_of (foldl (\<lambda>store p. storePut (fst p) (snd p) store) s d) = map_of s ++ map_of d"
proof (induction d arbitrary: s)
  case Nil
  then show ?case by simp
next
  case (Cons p rest)
  from Cons.prems have d: "distinct (map fst rest)" and nk: "fst p \<notin> set (map fst rest)" by auto
  have kr: "map_of rest (fst p) = None" using nk by (simp add: map_of_eq_None_iff)
  have step: "foldl (\<lambda>store p. storePut (fst p) (snd p) store) s (p # rest)
      = foldl (\<lambda>store p. storePut (fst p) (snd p) store) (storePut (fst p) (snd p) s) rest"
    by simp
  have ih: "map_of (foldl (\<lambda>store p. storePut (fst p) (snd p) store)
                      (storePut (fst p) (snd p) s) rest)
      = map_of (storePut (fst p) (snd p) s) ++ map_of rest"
    by (rule Cons.IH [OF d])
  have m: "map_of (storePut (fst p) (snd p) s) ++ map_of rest = map_of s ++ map_of (p # rest)"
    using kr by (cases p) (auto simp: fun_eq_iff map_add_def map_of_storePut split: option.splits)
  show ?case by (simp only: step ih m)
qed

lemma map_of_without_proto:
  "''__proto__'' \<notin> set (map fst xs) \<Longrightarrow>
   filter (\<lambda>(wkKey, wkData). wkKey \<noteq> ''__proto__'') xs = xs"
  by (induction xs) auto

lemma keys_storePut: "set (map fst (storePut k v store)) = insert k (set (map fst store))"
  by (auto simp: storePut_def set_insort_key)

lemma keys_foldl_storePut:
  "set (map fst (foldl (\<lambda>store p. storePut (fst p) (snd p) store) s d))
     = set (map fst s) \<union> set (map fst d)"
proof (induction d arbitrary: s)
  case Nil
  show ?case by simp
next
  case (Cons p rest)
  show ?case
    by (simp only: foldl.simps Cons.IH keys_storePut) auto
qed

lemma loadAllData_saveAllData:
  assumes "isAvailable (localStorage sm)"
    and "d \<notin> quotaExceededFor (localStorage sm)"
    and "d \<notin> idbFailsFor sm"
    and "distinct (map fst d)"
    and "''__proto__'' \<notin> set (map fst d)"
  shows "map_of (loadAllData (fst (saveAllData d sm))) = map_of d"
proof -
  define st where "st = foldl (\<lambda>store p. storePut (fst p) (snd p) store) [] d"
  have idb: "map_of st = map_of d"
    unfolding st_def using map_of_foldl_storePut [OF assms(4), of "[]"] by simp
  have "''__proto__'' \<notin> set (map fst st)"
    unfolding st_def using assms(5) by (simp only: keys_foldl_storePut) simp
  then have f: "filter (\<lambda>(wkKey, wkData). wkKey \<noteq> ''__proto__'') st = st"
    by (rule map_of_without_proto)
  have e: "map_of d = map_of []" if "st = []"
    using idb that by simp
  show ?thesis
    using assms(1,2,3) idb f e
    by (auto simp: saveAllData_def loadAllData_def LS_saveAllData_def LS_loadAllData_def
        IDB_saveAllData_def IDB_loadAllData_def Let_def st_def [symmetric])
qed

text \<open>
  C7, amended. With \<open>localStorage\<close> available and the write of the merged aggregate
  not failing, for every stored aggregate and every payload whose keys are week keys
  as \<open>validateWeekKey\<close> accepts them (those of the payload, those of the aggregate
  that is loaded and those of the \<open>IndexedDB\<close> store; pairwise different, the payload
  and the aggregate being objects), \<open>importData\<close> in merge mode leaves every existing
  week key with its value, adds the payload's value under exactly the payload keys that
  were absent, changes no other key, and returns as \<open>imported\<close> and \<open>existing\<close> the
  numbers of payload keys that were absent and present.
\<close>

theorem importData_merge_week_keys:
  assumes "isAvailable (localStorage sm)"
    and "fst (mergeLoop payload (loadAllData sm, 0, 0)) \<notin> quotaExceededFor (localStorage sm)"
    and "fst (mergeLoop payload (loadAllData sm, 0, 0)) \<notin> idbFailsFor sm"
    and "list_all validateWeekKey (map fst payload)"
    and "distinct (map fst payload)"
    and "list_all validateWeekKey (map fst (loadAllData sm))"
    and "distinct (map fst (loadAllData sm))"
    and "list_all validateWeekKey (map fst (weeks (indexedDB sm)))"
  shows "map_of (loadAllData (fst (importData payload True sm)))
           = map_of payload ++ map_of (loadAllData sm)
         \<and> (\<forall>k v. map_of (loadAllData sm) k = Some v \<longrightarrow>
               map_of (loadAllData (fst (importData payload True sm))) k = Some v)
         \<and> (\<forall>k. map_of (loadAllData sm) k = None \<longrightarrow>
               map_of (loadAllData (fst (importData payload True sm))) k = map_of payload k)
         \<and> success (snd (importData payload True sm))
         \<and> imported (snd (importData payload True sm))
             = length (filter (\<lambda>p. map_of (loadAllData sm) (fst p) = None) payload)
         \<and> existing (snd (importData payload True sm))
             = length (filter (\<lambda>p. map_of (loadAllData sm) (fst p) \<noteq> None) payload)"
proof -
  define cur where "cur = loadAllData sm"
  obtain merged imp ex where ml: "mergeLoop payload (cur, 0, 0) = (merged, imp, ex)"
    by (cases "mergeLoop payload (cur, 0, 0)")
  have wk: "\<forall>p\<in>set payload. validateWeekKey (fst p)"
    using assms(4) by (simp add: list_all_iff)
  then have np: "\<forall>p\<in>set payload. fst p \<notin> set objectPrototypeNames"
    by (simp add: validateWeekKey_not_inherited)
  have merged: "map_of merged = map_of payload ++ map_of cur"
    using mergeLoop_map [OF assms(5) np, of cur 0 0] ml by simp
  have dm: "distinct (map fst merged)"
    using mergeLoop_distinct [of cur payload 0 0] assms(7) ml by (simp add: cur_def)
  have "set (map fst merged) \<subseteq> set (map fst cur) \<union> set (map fst payload)"
    using mergeLoop_keys [of payload cur 0 0] ml by simp
  moreover have "\<forall>k\<in>set (map fst cur) \<union> set (map fst payload). validateWeekKey k"
    using assms(4,6) by (auto simp: list_all_iff cur_def)
  moreover have "\<not> validateWeekKey ''__proto__''"
    by (simp add: validateWeekKey_def)
  ultimately have pm: "''__proto__'' \<notin> set (map fst merged)" by blast
  have q: "merged \<notin> quotaExceededFor (localStorage sm)" and f: "merged \<notin> idbFailsFor sm"
    using assms(2,3) ml by (simp_all add: cur_def)
  have imp: "imp = length (filter (\<lambda>p. map_of cur (fst p) = None) payload)"
    using mergeLoop_imported [OF assms(5) np, of cur 0 0] ml by simp
  have ex: "ex = length (filter (\<lambda>p. map_of cur (fst p) \<noteq> None) payload)"
    using mergeLoop_existing [OF assms(5) np, of cur 0 0] ml by (simp del: not_None_eq)
  have res: "importData payload True sm
      = (fst (saveAllData merged sm), \<lparr>success = True, imported = imp, existing = ex\<rparr>)"
    using ml by (simp add: importData_def cur_def Let_def split: prod.splits)
  have m: "map_of (loadAllData (fst (importData payload True sm)))
             = map_of payload ++ map_of cur"
    using loadAllData_saveAllData [OF assms(1) q f dm pm] by (simp add: res merged)
  have a: "map_of (loadAllData (fst (importData payload True sm))) k = Some v"
    if "map_of cur k = Some v" for k v
    using that by (simp add: m map_add_def)
  have b: "map_of (loadAllData (fst (importData payload True sm))) k = map_of payload k"
    if "map_of cur k = None" for k
    using that by (simp add: m map_add_def)
  from m a b show ?thesis
    unfolding cur_def [symmetric] by (simp add: res imp ex del: not_None_eq)
qed

text \<open>
  The stored aggregate holds week 2026-W05; the payload holds other data for 2026-W05
  and a week 2026-W06. The result keeps the stored 2026-W05, adds 2026-W06, and counts
  one imported and one existing week.
\<close>

theorem importData_merge_week_keys_witness:
  "isAvailable (localStorage
      \<lparr>localStorage = \<lparr>isAvailable = True,
         storedItem = Some [(''2026-W05'', [(''2026-01-26'',
           [\<lparr>json_type = ''smart'', json_time = None, json_hours = Some (15 / 2)\<rparr>])])],
         quotaExceededFor = {}\<rparr>,
       indexedDB = \<lparr>db_open = True,
         weeks = [(''2026-W05'', [(''2026-01-26'',
           [\<lparr>json_type = ''smart'', json_time = None, json_hours = Some (15 / 2)\<rparr>])])],
         backups = [], nextKey = 1\<rparr>,
       useIndexedDB = True, idbFailsFor = {}\<rparr>)
   \<and> list_all validateWeekKey [''2026-W05'', ''2026-W06'']
   \<and> loadAllData (fst (importData
        [(''2026-W05'', [(''2026-01-27'',
           [\<lparr>json_type = ''assente'', json_time = None, json_hours = Some 0\<rparr>])]),
         (''2026-W06'', [(''2026-02-02'',
           [\<lparr>json_type = ''entrata'', json_time = Some (Some ''08:00''), json_hours = None\<rparr>])])]
        True
        \<lparr>localStorage = \<lparr>isAvailable = True,
           storedItem = Some [(''2026-W05'', [(''2026-01-26'',
             [\<lparr>json_type = ''smart'', json_time = None, json_hours = Some (15 / 2)\<rparr>])])],
           quotaExceededFor = {}\<rparr>,
         indexedDB = \<lparr>db_open = True,
           weeks = [(''2026-W05'', [(''2026-01-26'',
             [\<lparr>json_type = ''smart'', json_time = None, json_hours = Some (15 / 2)\<rparr>])])],
           backups = [], nextKey = 1\<rparr>,
         useIndexedDB = True, idbFailsFor = {}\<rparr>))
       = [(''2026-W05'', [(''2026-01-26'',
             [\<lparr>json_type = ''smart'', json_time = None, json_hours = Some (15 / 2)\<rparr>])]),
          (''2026-W06'', [(''2026-02-02'',
             [\<lparr>json_type = ''entrata'', json_time = Some (Some ''08:00''), json_hours = None\<rparr>])])]
   \<and> imported (snd (importData
        [(''2026-W05'', [(''2026-01-27'',
           [\<lparr>json_type = ''assente'', json_time = None, json_hours = Some 0\<rparr>])]),
         (''2026-W06'', [(''2026-02-02'',
           [\<lparr>json_type = ''entrata'', json_time = Some (Some ''08:00''), json_hours = None\<rparr>])])]
        True
        \<lparr>localStorage = \<lparr>isAvailable = True,
           storedItem = Some [(''2026-W05'', [(''2026-01-26'',
             [\<lparr>json_type = ''smart'', json_time = None, json_hours = Some (15 / 2)\<rparr>])])],
           quotaExceededFor = {}\<rparr>,
         indexedDB = \<lparr>db_open = True,
           weeks = [(''2026-W05'', [(''2026-01-26'',
             [\<lparr>json_type = ''smart'', json_time = None, json_hours = Some (15 / 2)\<rparr>])])],
           backups = [], nextKey = 1\<rparr>,
         useIndexedDB = True, idbFailsFor = {}\<rparr>)) = 1
   \<and> existing (snd (importData
        [(''2026-W05'', [(''2026-01-27'',
           [\<lparr>json_type = ''assente'', json_time = None, json_hours = Some 0\<rparr>])]),
         (''2026-W06'', [(''2026-02-02'',
           [\<lparr>json_type = ''entrata'', json_time = Some (Some ''08:00''), json_hours = None\<rparr>])])]
        True
        \<lparr>localStorage = \<lparr>isAvailable = True,
           storedItem = Some [(''2026-W05'', [(''2026-01-26'',
             [\<lparr>json_type = ''smart'', json_time = None, json_hours = Some (15 / 2)\<rparr>])])],
           quotaExceededFor = {}\<rparr>,
         indexedDB = \<lparr>db_open = True,
           weeks = [(''2026-W05'', [(''2026-01-26'',
             [\<lparr>json_type = ''smart'', json_time = None, json_hours = Some (15 / 2)\<rparr>])])],
           backups = [], nextKey = 1\<rparr>,
         useIndexedDB = True, idbFailsFor = {}\<rparr>)) = 1"
proof -
  define X :: WeekJSON where "X = [(''2026-01-26'',
           [\<lparr>json_type = ''smart'', json_time = None, json_hours = Some (15 / 2)\<rparr>])]"
  define Y :: WeekJSON where "Y = [(''2026-01-27'',
           [\<lparr>json_type = ''assente'', json_time = None, json_hours = Some 0\<rparr>])]"
  define Z :: WeekJSON where "Z = [(''2026-02-02'',
           [\<lparr>json_type = ''entrata'', json_time = Some (Some ''08:00''), json_hours = None\<rparr>])]"
  define sm where "sm =
      \<lparr>localStorage = \<lparr>isAvailable = True, storedItem = Some [(''2026-W05'', X)],
                        quotaExceededFor = {}\<rparr>,
       indexedDB = \<lparr>db_open = True, weeks = [(''2026-W05'', X)], backups = [], nextKey = 1\<rparr>,
       useIndexedDB = True, idbFailsFor = {}\<rparr>"
  define payload where "payload = [(''2026-W05'', Y), (''2026-W06'', Z)]"
  have cur: "loadAllData sm = [(''2026-W05'', X)]"
    by (simp add: sm_def loadAllData_def IDB_loadAllData_def)
  have wk: "list_all validateWeekKey [''2026-W05'', ''2026-W06'']" by code_simp
  have h1: "isAvailable (localStorage sm)" by (simp add: sm_def)
  have h2: "fst (mergeLoop payload (loadAllData sm, 0, 0)) \<notin> quotaExceededFor (localStorage sm)"
    by (simp add: sm_def)
  have h3: "fst (mergeLoop payload (loadAllData sm, 0, 0)) \<notin> idbFailsFor sm"
    by (simp add: sm_def)
  have h4: "list_all validateWeekKey (map fst payload)" using wk by (simp add: payload_def)
  have h5: "distinct (map fst payload)" by (simp add: payload_def)
  have h6: "list_all validateWeekKey (map fst (loadAllData sm))" using wk by (simp add: cur)
  have h7: "distinct (map fst (loadAllData sm))" by (simp add: cur)
  have h8: "list_all validateWeekKey (map fst (weeks (indexedDB sm)))"
    using wk by (simp add: sm_def)
  note T = importData_merge_week_keys [OF h1 h2 h3 h4 h5 h6 h7 h8]
  have t5: "\<not> propertyTruthy [] ''2026-W06''" "propertyTruthy [(''2026-W05'', X)] ''2026-W05''"
    "\<not> propertyTruthy [(''2026-W05'', X)] ''2026-W06''"
    by (simp_all add: propertyTruthy_def objectPrototypeNames_def)
  have ml: "mergeLoop payload (loadAllData sm, 0, 0) = ([(''2026-W05'', X), (''2026-W06'', Z)], 1, 1)"
    by (simp add: cur payload_def objectSet_def t5)
  have st: "storePut ''2026-W06'' z (storePut ''2026-W05'' x [])
              = [(''2026-W05'', x), (''2026-W06'', z)]"
    for x z
    by (simp add: storePut_def list_le_def list_less_def less_char_def)
  have e: "loadAllData (fst (importData payload True sm)) = [(''2026-W05'', X), (''2026-W06'', Z)]"
    unfolding importData_def Let_def ml
    by (simp add: saveAllData_def LS_saveAllData_def IDB_saveAllData_def st loadAllData_def
        IDB_loadAllData_def sm_def)
  from T have c1: "imported (snd (importData payload True sm))
      = length (filter (\<lambda>p. map_of (loadAllData sm) (fst p) = None) payload)" by blast
  from T have c2: "existing (snd (importData payload True sm))
      = length (filter (\<lambda>p. map_of (loadAllData sm) (fst p) \<noteq> None) payload)" by blast
  have v1: "length (filter (\<lambda>p. map_of (loadAllData sm) (fst p) = None) payload) = 1"
    by (simp add: cur payload_def)
  have v2: "length (filter (\<lambda>p. map_of (loadAllData sm) (fst p) \<noteq> None) payload) = 1"
    by (simp add: cur payload_def)
  from h1 wk e c1 c2 show ?thesis
    unfolding v1 v2 unfolding sm_def payload_def X_def Y_def Z_def by blast
qed

text \<open>
  C7, as stated, fails in two ways. A payload key that is the name of a property
  every object inherits, such as \<open>toString\<close>, counts as existing in an empty aggregate
  and is not added, because the loop tests \<open>currentData[weekKey]\<close> and not the presence
  of the key. And with \<open>localStorage\<close> not available the save throws, nothing is
  stored, and the import still counts the week 2026-W06 as imported. The import of a
  file validates the keys of the payload before \<open>importData\<close> is called, and the
  adapter throws on purpose when the storage is not there.
\<close>

theorem importData_merge_counterexample:
  "map_of [] ''toString'' = (None :: WeekJSON option)
   \<and> imported (snd (importData
        [(''toString'', [(''2026-02-02'',
           [\<lparr>json_type = ''entrata'', json_time = Some (Some ''08:00''), json_hours = None\<rparr>])])]
        True
        \<lparr>localStorage = \<lparr>isAvailable = True, storedItem = None, quotaExceededFor = {}\<rparr>,
         indexedDB = \<lparr>db_open = False, weeks = [], backups = [], nextKey = 1\<rparr>,
         useIndexedDB = False, idbFailsFor = {}\<rparr>)) = 0
   \<and> existing (snd (importData
        [(''toString'', [(''2026-02-02'',
           [\<lparr>json_type = ''entrata'', json_time = Some (Some ''08:00''), json_hours = None\<rparr>])])]
        True
        \<lparr>localStorage = \<lparr>isAvailable = True, storedItem = None, quotaExceededFor = {}\<rparr>,
         indexedDB = \<lparr>db_open = False, weeks = [], backups = [], nextKey = 1\<rparr>,
         useIndexedDB = False, idbFailsFor = {}\<rparr>)) = 1
   \<and> loadAllData (fst (importData
        [(''toString'', [(''2026-02-02'',
           [\<lparr>json_type = ''entrata'', json_time = Some (Some ''08:00''), json_hours = None\<rparr>])])]
        True
        \<lparr>localStorage = \<lparr>isAvailable = True, storedItem = None, quotaExceededFor = {}\<rparr>,
         indexedDB = \<lparr>db_open = False, weeks = [], backups = [], nextKey = 1\<rparr>,
         useIndexedDB = False, idbFailsFor = {}\<rparr>)) = []
   \<and> validateWeekKey ''2026-W06''
   \<and> loadAllData
        \<lparr>localStorage = \<lparr>isAvailable = False, storedItem = None, quotaExceededFor = {}\<rparr>,
         indexedDB = \<lparr>db_open = False, weeks = [], backups = [], nextKey = 1\<rparr>,
         useIndexedDB = False, idbFailsFor = {}\<rparr> = []
   \<and> imported (snd (importData
        [(''2026-W06'', [(''2026-02-02'',
           [\<lparr>json_type = ''entrata'', json_time = Some (Some ''08:00''), json_hours = None\<rparr>])])]
        True
        \<lparr>localStorage = \<lparr>isAvailable = False, storedItem = None, quotaExceededFor = {}\<rparr>,
         indexedDB = \<lparr>db_open = False, weeks = [], backups = [], nextKey = 1\<rparr>,
         useIndexedDB = False, idbFailsFor = {}\<rparr>)) = 1
   \<and> success (snd (importData
        [(''2026-W06'', [(''2026-02-02'',
           [\<lparr>json_type = ''entrata'', json_time = Some (Some ''08:00''), json_hours = None\<rparr>])])]
        True
        \<lparr>localStorage = \<lparr>isAvailable = False, storedItem = None, quotaExceededFor = {}\<rparr>,
         indexedDB = \<lparr>db_open = False, weeks = [], backups = [], nextKey = 1\<rparr>,
         useIndexedDB = False, idbFailsFor = {}\<rparr>))
   \<and> loadAllData (fst (importData
        [(''2026-W06'', [(''2026-02-02'',
           [\<lparr>json_type = ''entrata'', json_time = Some (Some ''08:00''), json_hours = None\<rparr>])])]
        True
        \<lparr>localStorage = \<lparr>isAvailable = False, storedItem = None, quotaExceededFor = {}\<rparr>,
         indexedDB = \<lparr>db_open = False, weeks = [], backups = [], nextKey = 1\<rparr>,
         useIndexedDB = False, idbFailsFor = {}\<rparr>)) = []"
proof -
  define Z :: WeekJSON where "Z = [(''2026-02-02'',
           [\<lparr>json_type = ''entrata'', json_time = Some (Some ''08:00''), json_hours = None\<rparr>])]"
  define idb where "idb = \<lparr>db_open = False, weeks = [], backups = [], nextKey = 1\<rparr>"
  define sm1 where "sm1 =
      \<lparr>localStorage = \<lparr>isAvailable = True, storedItem = None, quotaExceededFor = {}\<rparr>,
       indexedDB = idb, useIndexedDB = False, idbFailsFor = {}\<rparr>"
  define sm2 where "sm2 =
      \<lparr>localStorage = \<lparr>isAvailable = False, storedItem = None, quotaExceededFor = {}\<rparr>,
       indexedDB = idb, useIndexedDB = False, idbFailsFor = {}\<rparr>"
  have l1: "loadAllData sm1 = []" by (simp add: sm1_def loadAllData_def LS_loadAllData_def)
  have l2: "loadAllData sm2 = []" by (simp add: sm2_def loadAllData_def LS_loadAllData_def)
  have t1: "propertyTruthy [] ''toString''"
    by (simp add: propertyTruthy_def objectPrototypeNames_def)
  have t2: "\<not> propertyTruthy [] ''2026-W06''"
    by (simp add: propertyTruthy_def objectPrototypeNames_def)
  have wk: "validateWeekKey ''2026-W06''" by code_simp
  have m1: "mergeLoop [(''toString'', Z)] (loadAllData sm1, 0, 0) = ([], 0, 1)"
    by (simp add: l1 t1)
  have m2: "mergeLoop [(''2026-W06'', Z)] (loadAllData sm2, 0, 0) = ([(''2026-W06'', Z)], 1, 0)"
    by (simp add: l2 t2 objectSet_def)
  have s1: "saveAllData [] sm1
      = (sm1\<lparr>localStorage := \<lparr>isAvailable = True, storedItem = Some [],
                                 quotaExceededFor = {}\<rparr>\<rparr>, True)"
    by (simp add: saveAllData_def LS_saveAllData_def sm1_def)
  have s2: "saveAllData [(''2026-W06'', Z)] sm2 = (sm2, False)"
    by (simp add: saveAllData_def LS_saveAllData_def sm2_def)
  have r1: "importData [(''toString'', Z)] True sm1
      = (sm1\<lparr>localStorage := \<lparr>isAvailable = True, storedItem = Some [],
                                 quotaExceededFor = {}\<rparr>\<rparr>,
         \<lparr>success = True, imported = 0, existing = 1\<rparr>)"
    unfolding importData_def Let_def m1 by (simp add: s1)
  have r2: "importData [(''2026-W06'', Z)] True sm2
      = (sm2, \<lparr>success = True, imported = 1, existing = 0\<rparr>)"
    unfolding importData_def Let_def m2 by (simp add: s2)
  have a: "imported (snd (importData [(''toString'', Z)] True sm1)) = 0
      \<and> existing (snd (importData [(''toString'', Z)] True sm1)) = 1
      \<and> loadAllData (fst (importData [(''toString'', Z)] True sm1)) = []"
    unfolding r1 by (simp add: loadAllData_def LS_loadAllData_def sm1_def)
  have b: "imported (snd (importData [(''2026-W06'', Z)] True sm2)) = 1
      \<and> success (snd (importData [(''2026-W06'', Z)] True sm2))
      \<and> loadAllData (fst (importData [(''2026-W06'', Z)] True sm2)) = []"
    unfolding r2 by (simp add: l2)
  have n: "map_of [] ''toString'' = (None :: WeekJSON option)" by simp
  from n a wk l2 b show ?thesis
    unfolding sm1_def sm2_def idb_def Z_def by blast
qed

subsection \<open>Backup rotation\<close>













end
